theory Spec2Isabelle
  imports Main "HOL-Library.AList"
begin

section \<open>URL tree construction of the router (create\_url\_tree.ts)\<close>

text \<open>
  A shallow embedding of \<^verbatim>\<open>packages/router/src/create_url_tree.ts\<close>: the functions
  that turn an anchor segment group and a list of navigation commands into a new URL
  tree. Every function keeps the name it has in the source. A value of
  \<open>error + 'a\<close> is the outcome of a call that may throw: \<open>Inl e\<close> is the exception.
\<close>

subsection \<open>JavaScript values that occur in commands\<close>

text \<open>
  The commands are typed \<^verbatim>\<open>any[]\<close>. The model covers the values the function documents:
  primitive values, matrix-parameter objects, \<^verbatim>\<open>{segmentPath: s}\<close> objects and
  \<^verbatim>\<open>{outlets: {...}}\<close> objects. A constructor records the outcome of the source's
  dynamic tests (\<^verbatim>\<open>typeof\<close>, truthiness of \<^verbatim>\<open>outlets\<close> and \<^verbatim>\<open>segmentPath\<close>):
  \<^item> \<open>CPrim p\<close>: a primitive value; numbers are integers (magnitude below \<open>10^21\<close>, so that
    their decimal form is what a template string prints);
  \<^item> \<open>COutlets os\<close>: an object whose \<^verbatim>\<open>outlets\<close> property is the object with the
    entries \<open>os\<close> (an object is truthy, also when empty); each value is a string,
    \<^verbatim>\<open>null\<close> or an array of commands;
  \<^item> \<open>CSegmentPath s\<close>: the object \<^verbatim>\<open>{segmentPath: s}\<close> with \<open>s\<close> a non-empty (truthy)
    string and no truthy \<^verbatim>\<open>outlets\<close>;
  \<^item> \<open>CParams kvs\<close>: any other non-null object, with own entries \<open>kvs\<close> in insertion
    order; \<^verbatim>\<open>outlets\<close> and \<^verbatim>\<open>segmentPath\<close>, where present among the keys, carry
    falsy values.
  Arrays as commands are outside the model.
\<close>

datatype prim = PUndefined | PNull | PBool bool | PNum int | PStr string

datatype command =
    CPrim prim
  | CParams "(string \<times> prim) list"
  | CSegmentPath string
  | COutlets "(string \<times> outlet_commands) list"
and outlet_commands =
    OString string
  | ONull
  | OArray "command list"

datatype error =
    RootSegmentMatrixParams
  | MisplacedOutletsCommand
  | InvalidDoubleDots
  | TypeError

text \<open>
  Modelled from the spec: \<^verbatim>\<open>PRIMARY_OUTLET\<close> of \<^verbatim>\<open>shared.ts\<close>, which is not among the
  sources. Section 3: the primary outlet name is the reserved constant \<^verbatim>\<open>"primary"\<close>.
\<close>

definition PRIMARY_OUTLET :: string where
  "PRIMARY_OUTLET = ''primary''"

text \<open>Decimal digits of a number, as a template string prints an integer.\<close>

function show_nat :: "nat \<Rightarrow> string" where
  "show_nat n =
     (if n < 10 then [''0123456789'' ! n]
      else show_nat (n div 10) @ [''0123456789'' ! (n mod 10)])"
  by pat_completeness auto
termination
  by (relation "measure id") auto

declare show_nat.simps [simp del]

definition show_int :: "int \<Rightarrow> string" where
  "show_int i = (if i < 0 then CHR ''-'' # show_nat (nat (- i)) else show_nat (nat i))"

text \<open>The template string \<^verbatim>\<open>`${v}`\<close> of a primitive value and of a command.\<close>

fun prim_to_string :: "prim \<Rightarrow> string" where
  "prim_to_string PUndefined = ''undefined''"
| "prim_to_string PNull = ''null''"
| "prim_to_string (PBool b) = (if b then ''true'' else ''false'')"
| "prim_to_string (PNum n) = show_int n"
| "prim_to_string (PStr s) = s"

fun to_string :: "command \<Rightarrow> string" where
  "to_string (CPrim p) = prim_to_string p"
| "to_string (CParams kvs) = ''[object Object]''"
| "to_string (CSegmentPath s) = ''[object Object]''"
| "to_string (COutlets os) = ''[object Object]''"

text \<open>
  \<^verbatim>\<open>s.split('/')\<close>: the pieces between the slashes; a string without a slash (the empty
  string too) gives one piece.
\<close>

fun split_slash :: "string \<Rightarrow> string list" where
  "split_slash [] = [[]]"
| "split_slash (c # cs) =
     (if c = CHR ''/'' then [] # split_slash cs
      else (case split_slash cs of
              [] \<Rightarrow> [[c]]
            | p # ps \<Rightarrow> (c # p) # ps))"

subsection \<open>Command classification\<close>

text \<open>
  \<^verbatim>\<open>isMatrixParams\<close>: a non-null object with neither a truthy \<^verbatim>\<open>outlets\<close> nor a truthy
  \<^verbatim>\<open>segmentPath\<close>. \<^verbatim>\<open>isCommandWithOutlets\<close>: a non-null object with a truthy
  \<^verbatim>\<open>outlets\<close>.
\<close>

fun isMatrixParams :: "command \<Rightarrow> bool" where
  "isMatrixParams (CParams kvs) = True"
| "isMatrixParams c = False"

fun isCommandWithOutlets :: "command \<Rightarrow> bool" where
  "isCommandWithOutlets (COutlets os) = True"
| "isCommandWithOutlets c = False"

subsection \<open>Navigation: the normalised commands\<close>

record navigation =
  isAbsolute :: bool
  numberOfDoubleDots :: int
  commands :: "command list"

text \<open>
  \<^verbatim>\<open>commands.find(isCommandWithOutlets)\<close>, as the index of the command found. The
  constructor compares the command found with \<^verbatim>\<open>last(commands)\<close> by reference; every
  outlets command of a normalised list is an object made by \<^verbatim>\<open>computeNavigation\<close>, so
  two of them are the same object exactly when they stand at the same index.
\<close>

fun find_outlets_index :: "command list \<Rightarrow> nat option" where
  "find_outlets_index [] = None"
| "find_outlets_index (c # cs) =
     (if isCommandWithOutlets c then Some 0
      else map_option Suc (find_outlets_index cs))"

definition Navigation :: "bool \<Rightarrow> int \<Rightarrow> command list \<Rightarrow> error + navigation" where
  "Navigation isAbs ndd cmds =
     (if isAbs \<and> length cmds > 0 \<and> isMatrixParams (cmds ! 0) then Inl RootSegmentMatrixParams
      else (case find_outlets_index cmds of
              None \<Rightarrow> Inr \<lparr>isAbsolute = isAbs, numberOfDoubleDots = ndd, commands = cmds\<rparr>
            | Some i \<Rightarrow>
                if i \<noteq> length cmds - 1 then Inl MisplacedOutletsCommand
                else Inr \<lparr>isAbsolute = isAbs, numberOfDoubleDots = ndd, commands = cmds\<rparr>))"

text \<open>\<^verbatim>\<open>toRoot\<close>; \<^verbatim>\<open>commands[0] == '/'\<close> holds of the string \<^verbatim>\<open>'/'\<close> only.\<close>

definition toRoot :: "navigation \<Rightarrow> bool" where
  "toRoot nav =
     (isAbsolute nav \<and> length (commands nav) = 1 \<and> commands nav ! 0 = CPrim (PStr ''/''))"

text \<open>
  The state of the \<^verbatim>\<open>reduce\<close> in \<^verbatim>\<open>computeNavigation\<close>: the accumulated list
  \<^verbatim>\<open>res\<close> and the two variables of the enclosing function that the callback assigns,
  \<^verbatim>\<open>isAbsolute\<close> and \<^verbatim>\<open>numberOfDoubleDots\<close>.
\<close>

type_synonym nav_state = "command list \<times> bool \<times> int"

text \<open>The body of the \<^verbatim>\<open>forEach\<close> over the parts of the first command.\<close>

definition url_part_step :: "nat \<Rightarrow> string \<Rightarrow> nav_state \<Rightarrow> nav_state" where
  "url_part_step partIndex urlPart st =
     (case st of (res, isAbs, ndd) \<Rightarrow>
        if partIndex = 0 \<and> urlPart = ''.'' then (res, isAbs, ndd)
        else if partIndex = 0 \<and> urlPart = [] then (res, True, ndd)
        else if urlPart = ''..'' then (res, isAbs, ndd + 1)
        else if urlPart \<noteq> [] then (res @ [CPrim (PStr urlPart)], isAbs, ndd)
        else (res, isAbs, ndd))"

fun url_parts_forEach :: "nat \<Rightarrow> string list \<Rightarrow> nav_state \<Rightarrow> nav_state" where
  "url_parts_forEach partIndex [] st = st"
| "url_parts_forEach partIndex (p # ps) st =
     url_parts_forEach (Suc partIndex) ps (url_part_step partIndex p st)"

text \<open>An outlet value of a top-level outlets command: a string is split on the slash.\<close>

fun normalize_outlet :: "outlet_commands \<Rightarrow> outlet_commands" where
  "normalize_outlet (OString s) = OArray (map (\<lambda>p. CPrim (PStr p)) (split_slash s))"
| "normalize_outlet v = v"

text \<open>The callback of the \<^verbatim>\<open>reduce\<close>, for the command \<open>cmd\<close> at index \<open>cmdIdx\<close>.\<close>

fun reduce_step :: "nat \<Rightarrow> command \<Rightarrow> nav_state \<Rightarrow> nav_state" where
  "reduce_step cmdIdx (COutlets os) (res, isAbs, ndd) =
     (res @ [COutlets (map (\<lambda>(name, v). (name, normalize_outlet v)) os)], isAbs, ndd)"
| "reduce_step cmdIdx (CSegmentPath s) (res, isAbs, ndd) =
     (res @ [CPrim (PStr s)], isAbs, ndd)"
| "reduce_step cmdIdx (CParams kvs) (res, isAbs, ndd) =
     (res @ [CParams kvs], isAbs, ndd)"
| "reduce_step cmdIdx (CPrim (PStr s)) (res, isAbs, ndd) =
     (if cmdIdx = 0 then url_parts_forEach 0 (split_slash s) (res, isAbs, ndd)
      else (res @ [CPrim (PStr s)], isAbs, ndd))"
| "reduce_step cmdIdx (CPrim p) (res, isAbs, ndd) =
     (res @ [CPrim p], isAbs, ndd)"

fun reduce_commands :: "nat \<Rightarrow> command list \<Rightarrow> nav_state \<Rightarrow> nav_state" where
  "reduce_commands cmdIdx [] st = st"
| "reduce_commands cmdIdx (c # cs) st =
     reduce_commands (Suc cmdIdx) cs (reduce_step cmdIdx c st)"

definition computeNavigation :: "command list \<Rightarrow> error + navigation" where
  "computeNavigation cmds =
     (if cmds = [CPrim (PStr ''/'')] then Navigation True 0 cmds
      else (case reduce_commands 0 cmds ([], False, 0) of
              (res, isAbs, ndd) \<Rightarrow> Navigation isAbs ndd res))"

text \<open>
  The same normalisation as the specification words it (section 4.1): the first
  token, if a string, is split on the slash and every piece is classified by its position
  and its text; every other token is passed through, an outlets object with its string
  values split and a \<^verbatim>\<open>segmentPath\<close> object replaced by its path. These definitions are
  compared with \<open>computeNavigation\<close> below; the code does not use them.
\<close>

fun pass_through :: "command \<Rightarrow> command" where
  "pass_through (COutlets os) = COutlets (map (\<lambda>(name, v). (name, normalize_outlet v)) os)"
| "pass_through (CSegmentPath s) = CPrim (PStr s)"
| "pass_through c = c"

definition kept_part :: "nat \<Rightarrow> string \<Rightarrow> bool" where
  "kept_part i p = (p \<noteq> [] \<and> p \<noteq> ''..'' \<and> \<not> (i = 0 \<and> p = ''.''))"

definition classified_parts :: "nat \<Rightarrow> string list \<Rightarrow> command list" where
  "classified_parts i ps =
     map (\<lambda>(j, p). CPrim (PStr p)) (filter (\<lambda>(j, p). kept_part j p) (enumerate i ps))"

fun classify_commands :: "command list \<Rightarrow> nav_state" where
  "classify_commands (CPrim (PStr s) # rest) =
     (classified_parts 0 (split_slash s) @ map pass_through rest,
      hd (split_slash s) = [],
      int (count_list (split_slash s) ''..''))"
| "classify_commands cmds = (map pass_through cmds, False, 0)"

text \<open>
  The three values \<^verbatim>\<open>computeNavigation\<close> hands to the \<^verbatim>\<open>Navigation\<close> constructor: the
  normalised command list, \<^verbatim>\<open>isAbsolute\<close> and \<^verbatim>\<open>numberOfDoubleDots\<close>.
\<close>

definition normalized :: "command list \<Rightarrow> nav_state" where
  "normalized cmds =
     (if cmds = [CPrim (PStr ''/'')] then (cmds, True, 0)
      else reduce_commands 0 cmds ([], False, 0))"

text \<open>
  The exception the \<^verbatim>\<open>Navigation\<close> constructor throws for a command list with an
  outlets command before its last position: its first test comes first.
\<close>

definition misplaced_error :: "bool \<Rightarrow> command list \<Rightarrow> error" where
  "misplaced_error isAbs res =
     (if isAbs \<and> isMatrixParams (res ! 0) then RootSegmentMatrixParams
      else MisplacedOutletsCommand)"

subsection \<open>Segments, segment groups and their parents\<close>

text \<open>
  Modelled from the spec: the classes \<^verbatim>\<open>UrlSegment\<close> and \<^verbatim>\<open>UrlSegmentGroup\<close> of
  \<^verbatim>\<open>url_tree.ts\<close>, which is not among the sources. Section 3: a segment is a path token
  plus a mapping of matrix-parameter names to string values; a segment group is an ordered
  sequence of segments plus a mapping from outlet name to child segment group.
  \<^verbatim>\<open>hasChildren\<close> tells whether that mapping has an entry.

  An object with string keys is the list of its entries in insertion order, the order in
  which \<^verbatim>\<open>forEach\<close> (of \<^verbatim>\<open>utils/collection.ts\<close>) visits them; the keys of one object are
  distinct. An assignment \<^verbatim>\<open>o[k] = v\<close> is \<open>AList.update k v\<close>: it replaces the value
  of an entry that exists and appends a new entry otherwise.
\<close>

record url_segment =
  path :: string
  parameters :: "(string \<times> string) list"

datatype url_segment_group =
  UrlSegmentGroup (segments: "url_segment list") (children: "(string \<times> url_segment_group) list")

definition hasChildren :: "url_segment_group \<Rightarrow> bool" where
  "hasChildren g = (children g \<noteq> [])"

text \<open>
  A segment group knows its parent. The model keeps a group together with the way up to
  the root: for every ancestor, nearest first, the ancestor's segments, the outlet under
  which the way continues, and the ancestor's other children before and after that
  outlet. \<open>plug c g\<close> is the ancestor itself, and \<open>parent\<close> is the \<^verbatim>\<open>parent\<close> property
  (\<open>None\<close> for \<^verbatim>\<open>null\<close>). Two groups of one tree are the same object exactly when the
  outlet names from the root down to them, \<open>path_of\<close>, are equal.

  The constructor of a segment group also makes the new group the parent of the children
  it is given. Every read of a \<^verbatim>\<open>parent\<close> (the walk to the root and the resolution of
  the position) comes before the first group is constructed, so the groups the functions
  build are plain values of \<open>url_segment_group\<close>.
\<close>

datatype crumb =
  Crumb (crumb_segments: "url_segment list")
        (crumb_before: "(string \<times> url_segment_group) list")
        (crumb_outlet: string)
        (crumb_after: "(string \<times> url_segment_group) list")

type_synonym location = "url_segment_group \<times> crumb list"

definition plug :: "crumb \<Rightarrow> url_segment_group \<Rightarrow> url_segment_group" where
  "plug c g =
     UrlSegmentGroup (crumb_segments c) (crumb_before c @ (crumb_outlet c, g) # crumb_after c)"

fun parent :: "location \<Rightarrow> location option" where
  "parent (g, []) = None"
| "parent (g, c # cs) = Some (plug c g, cs)"

text \<open>\<^verbatim>\<open>while (root.parent) root = root.parent\<close>.\<close>

fun root_of :: "location \<Rightarrow> url_segment_group" where
  "root_of (g, []) = g"
| "root_of (g, c # cs) = root_of (plug c g, cs)"

definition path_of :: "location \<Rightarrow> string list" where
  "path_of loc = rev (map crumb_outlet (snd loc))"

subsection \<open>Positions\<close>

record position =
  segmentGroup :: location
  processChildren :: bool
  index :: int

text \<open>
  The loop of \<^verbatim>\<open>createPositionApplyingDoubleDots\<close>, its variables \<^verbatim>\<open>g\<close>, \<^verbatim>\<open>ci\<close> and
  \<^verbatim>\<open>dd\<close> as arguments; the exception is thrown after \<^verbatim>\<open>dd -= ci\<close>, when \<^verbatim>\<open>g.parent\<close>
  is \<^verbatim>\<open>null\<close>.
\<close>

fun createPositionApplyingDoubleDots :: "location \<Rightarrow> int \<Rightarrow> int \<Rightarrow> error + position" where
  "createPositionApplyingDoubleDots (g, cs) ci dd =
     (if dd > ci then
        (case cs of
           [] \<Rightarrow> Inl InvalidDoubleDots
         | c # cs' \<Rightarrow>
             createPositionApplyingDoubleDots (plug c g, cs')
               (int (length (segments (plug c g)))) (dd - ci))
      else Inr \<lparr>segmentGroup = (g, cs), processChildren = False, index = ci - dd\<rparr>)"

declare createPositionApplyingDoubleDots.simps [simp del]

text \<open>
  The segments above a group: the sum of the lengths of the segment lists of all its
  ancestors. Together with the local index it is the depth the double dots can consume.
\<close>

definition ancestor_segments :: "crumb list \<Rightarrow> int" where
  "ancestor_segments cs = sum_list (map (\<lambda>c. int (length (crumb_segments c))) cs)"

text \<open>
  \<^verbatim>\<open>isMatrixParams(nav.commands[0])\<close>; \<^verbatim>\<open>commands[0]\<close> of an empty list is
  \<^verbatim>\<open>undefined\<close>, which is no object.
\<close>

fun first_isMatrixParams :: "command list \<Rightarrow> bool" where
  "first_isMatrixParams [] = False"
| "first_isMatrixParams (c # cs) = isMatrixParams c"

text \<open>
  \<^verbatim>\<open>findStartingPositionForTargetGroup\<close>. The branch for a falsy \<^verbatim>\<open>target\<close> is left out:
  the target is a segment group.
\<close>

definition findStartingPositionForTargetGroup ::
  "navigation \<Rightarrow> url_segment_group \<Rightarrow> location \<Rightarrow> error + position" where
  "findStartingPositionForTargetGroup nav rt target =
     (if isAbsolute nav then Inr \<lparr>segmentGroup = (rt, []), processChildren = True, index = 0\<rparr>
      else if parent target = None then
        Inr \<lparr>segmentGroup = target, processChildren = True, index = 0\<rparr>
      else
        let modifier = (if first_isMatrixParams (commands nav) then 0 else 1);
            idx = int (length (segments (fst target))) - 1 + modifier
        in createPositionApplyingDoubleDots target idx (numberOfDoubleDots nav))"

text \<open>
  \<^verbatim>\<open>findStartingPosition\<close>, for a segment group \<open>sg\<close> of the tree \<^verbatim>\<open>tree\<close>, whose root is
  then \<open>root_of sg\<close>; \<^verbatim>\<open>segmentGroup === tree.root\<close> holds when \<open>sg\<close> has no parent.
\<close>

definition findStartingPosition :: "navigation \<Rightarrow> location \<Rightarrow> int \<Rightarrow> error + position" where
  "findStartingPosition nav sg lastPathIndex =
     (if isAbsolute nav then
        Inr \<lparr>segmentGroup = (root_of sg, []), processChildren = True, index = 0\<rparr>
      else if lastPathIndex = - 1 then
        Inr \<lparr>segmentGroup = sg, processChildren = (parent sg = None), index = 0\<rparr>
      else
        let modifier = (if first_isMatrixParams (commands nav) then 0 else 1);
            idx = lastPathIndex + modifier
        in createPositionApplyingDoubleDots sg idx (numberOfDoubleDots nav))"

subsection \<open>Array access\<close>

text \<open>
  \<^verbatim>\<open>xs[i]\<close> is \<^verbatim>\<open>undefined\<close> outside the array; \<^verbatim>\<open>slice\<close> counts a negative index
  from the end and clamps both indices to the array.
\<close>

definition js_nth :: "'a list \<Rightarrow> int \<Rightarrow> 'a option" where
  "js_nth xs i = (if 0 \<le> i \<and> i < int (length xs) then Some (xs ! nat i) else None)"

definition slice_index :: "nat \<Rightarrow> int \<Rightarrow> nat" where
  "slice_index n i = (if i < 0 then nat (max (int n + i) 0) else min (nat i) n)"

definition js_slice :: "'a list \<Rightarrow> int \<Rightarrow> int \<Rightarrow> 'a list" where
  "js_slice xs from to =
     (let k = slice_index (length xs) from; final = slice_index (length xs) to
      in take (final - k) (drop k xs))"

definition js_slice_from :: "'a list \<Rightarrow> int \<Rightarrow> 'a list" where
  "js_slice_from xs from = drop (slice_index (length xs) from) xs"

subsection \<open>Prefix matching\<close>

text \<open>
  Modelled from the spec: \<^verbatim>\<open>shallowEqual\<close> of \<^verbatim>\<open>utils/collection.ts\<close>, which is not
  among the sources. Section 4.3: equality of parameter maps is a shallow key/value
  comparison (same key set, same stringified values, order irrelevant). The first map is
  the object of a command, the second the parameters of a segment.
\<close>

definition shallowEqual :: "(string \<times> prim) list \<Rightarrow> (string \<times> string) list \<Rightarrow> bool" where
  "shallowEqual a b =
     (set (map fst a) = set (map fst b) \<and>
      list_all (\<lambda>k. map_option prim_to_string (map_of a k) = map_of b k) (map fst a))"

text \<open>\<^verbatim>\<open>compare\<close>; reading \<^verbatim>\<open>segment.path\<close> of \<^verbatim>\<open>undefined\<close> throws a TypeError.\<close>

definition compare :: "string \<Rightarrow> (string \<times> prim) list \<Rightarrow> url_segment option \<Rightarrow> error + bool" where
  "compare p params segment =
     (case segment of
        None \<Rightarrow> Inl TypeError
      | Some s \<Rightarrow> Inr (p = path s \<and> shallowEqual params (parameters s)))"

record prefix_match =
  match :: bool
  pathIndex :: int
  commandIndex :: nat

definition noMatch :: prefix_match where
  "noMatch = \<lparr>match = False, pathIndex = 0, commandIndex = 0\<rparr>"

text \<open>
  \<^verbatim>\<open>next && (typeof next === 'object') && next.outlets === undefined\<close>, with the entries
  of \<^verbatim>\<open>next\<close> when the test holds; \<open>None\<close> as the argument is \<^verbatim>\<open>null\<close>.
\<close>

fun object_without_outlets :: "command option \<Rightarrow> (string \<times> prim) list option" where
  "object_without_outlets None = None"
| "object_without_outlets (Some (CPrim p)) = None"
| "object_without_outlets (Some (CParams kvs)) =
     (case map_of kvs ''outlets'' of
        None \<Rightarrow> Some kvs
      | Some v \<Rightarrow> if v = PUndefined then Some kvs else None)"
| "object_without_outlets (Some (CSegmentPath s)) = Some [(''segmentPath'', PStr s)]"
| "object_without_outlets (Some (COutlets os)) = None"

text \<open>
  The loop of \<^verbatim>\<open>prefixedWith\<close>. The test \<^verbatim>\<open>currentPathIndex > 0 && curr === undefined\<close>
  never holds (\<^verbatim>\<open>curr\<close> is a template string) and is left out.
\<close>

function prefixedWith_loop ::
  "url_segment list \<Rightarrow> command list \<Rightarrow> int \<Rightarrow> nat \<Rightarrow> error + prefix_match" where
  "prefixedWith_loop segs cmds currentPathIndex currentCommandIndex =
     (if currentPathIndex < int (length segs) then
        if currentCommandIndex \<ge> length cmds then Inr noMatch
        else
          let s = js_nth segs currentPathIndex;
              command = cmds ! currentCommandIndex
          in if isCommandWithOutlets command then
               Inr \<lparr>match = True, pathIndex = currentPathIndex,
                    commandIndex = currentCommandIndex\<rparr>
             else
               let curr = to_string command;
                   next = (if currentCommandIndex + 1 < length cmds
                           then Some (cmds ! (currentCommandIndex + 1)) else None)
               in (case (if curr \<noteq> [] then object_without_outlets next else None) of
                     Some params \<Rightarrow>
                       (case compare curr params s of
                          Inl e \<Rightarrow> Inl e
                        | Inr eq \<Rightarrow>
                            if \<not> eq then Inr noMatch
                            else prefixedWith_loop segs cmds
                                   (currentPathIndex + 1) (currentCommandIndex + 2))
                   | None \<Rightarrow>
                       (case compare curr [] s of
                          Inl e \<Rightarrow> Inl e
                        | Inr eq \<Rightarrow>
                            if \<not> eq then Inr noMatch
                            else prefixedWith_loop segs cmds
                                   (currentPathIndex + 1) (currentCommandIndex + 1)))
      else Inr \<lparr>match = True, pathIndex = currentPathIndex,
                commandIndex = currentCommandIndex\<rparr>)"
  by pat_completeness auto
termination
  by (relation "measure (\<lambda>(segs, cmds, i, j). nat (int (length segs) - i))") auto

declare prefixedWith_loop.simps [simp del]

definition prefixedWith ::
  "url_segment_group \<Rightarrow> int \<Rightarrow> command list \<Rightarrow> error + prefix_match" where
  "prefixedWith sg startIndex cmds = prefixedWith_loop (segments sg) cmds startIndex 0"

text \<open>
  Names for the parts of one step of the walk at the command index \<open>j\<close>: the command
  after it (\<^verbatim>\<open>next\<close>), the object taken as the expected parameters of the segment (when
  \<^verbatim>\<open>curr\<close> is not empty and \<^verbatim>\<open>next\<close> is an object without \<^verbatim>\<open>outlets\<close>), the parameters
  the segment is compared with, and the number of commands the step consumes.
\<close>

definition next_command :: "command list \<Rightarrow> nat \<Rightarrow> command option" where
  "next_command cmds j = (if j + 1 < length cmds then Some (cmds ! (j + 1)) else None)"

definition parameters_object :: "command list \<Rightarrow> nat \<Rightarrow> (string \<times> prim) list option" where
  "parameters_object cmds j =
     (if to_string (cmds ! j) \<noteq> [] then object_without_outlets (next_command cmds j) else None)"

definition expected_parameters :: "command list \<Rightarrow> nat \<Rightarrow> (string \<times> prim) list" where
  "expected_parameters cmds j = (case parameters_object cmds j of Some params \<Rightarrow> params | None \<Rightarrow> [])"

definition consumed :: "command list \<Rightarrow> nat \<Rightarrow> nat" where
  "consumed cmds j = (case parameters_object cmds j of Some params \<Rightarrow> 2 | None \<Rightarrow> 1)"

subsection \<open>Building and updating segment groups\<close>

text \<open>
  The loop that \<^verbatim>\<open>createNewSegmentChildren\<close> and \<^verbatim>\<open>updateSegmentGroupChildren\<close> both
  run over an outlets object: a string value stands for the one-element array holding
  it, a \<^verbatim>\<open>null\<close> value is skipped, and for any other value \<^verbatim>\<open>children[outlet]\<close> is
  assigned the group \<open>f\<close> returns. An exception of \<open>f\<close> ends the loop.
\<close>

fun outlet_command_list :: "outlet_commands \<Rightarrow> command list option" where
  "outlet_command_list (OString s) = Some [CPrim (PStr s)]"
| "outlet_command_list ONull = None"
| "outlet_command_list (OArray cs) = Some cs"

fun forEach_outlet ::
  "(string \<Rightarrow> command list \<Rightarrow> error + url_segment_group) \<Rightarrow>
   (string \<times> outlet_commands) list \<Rightarrow> (string \<times> url_segment_group) list \<Rightarrow>
   error + (string \<times> url_segment_group) list" where
  "forEach_outlet f [] chs = Inr chs"
| "forEach_outlet f ((outlet, v) # rest) chs =
     (case outlet_command_list v of
        None \<Rightarrow> forEach_outlet f rest chs
      | Some cs \<Rightarrow>
          (case f outlet cs of
             Inl e \<Rightarrow> Inl e
           | Inr g \<Rightarrow> forEach_outlet f rest (AList.update outlet g chs)))"

lemma forEach_outlet_cong [fundef_cong]:
  assumes "os = os'" and "chs = chs'"
    and "\<And>outlet v cs. (outlet, v) \<in> set os' \<Longrightarrow> outlet_command_list v = Some cs \<Longrightarrow>
           f outlet cs = f' outlet cs"
  shows "forEach_outlet f os chs = forEach_outlet f' os' chs'"
  using assms(3) unfolding assms(1,2)
proof (induction os' arbitrary: chs')
  case Nil
  then show ?case by simp
next
  case (Cons a os')
  obtain outlet v where a: "a = (outlet, v)" by (cases a)
  have rest: "forEach_outlet f os' c = forEach_outlet f' os' c" for c
    by (rule Cons.IH) (rule Cons.prems, simp_all)
  show ?case
  proof (cases "outlet_command_list v")
    case None
    then show ?thesis by (simp add: a rest)
  next
    case (Some cs)
    have "f outlet cs = f' outlet cs"
      using Cons.prems [of outlet v cs] by (simp add: a Some)
    then show ?thesis by (simp add: a Some rest split: sum.splits)
  qed
qed

text \<open>The sizes by which the recursion over commands and groups ends.\<close>

fun command_weight :: "command \<Rightarrow> nat"
  and outlet_weight :: "outlet_commands \<Rightarrow> nat"
  and outlets_weight :: "(string \<times> outlet_commands) list \<Rightarrow> nat"
  and commands_weight :: "command list \<Rightarrow> nat" where
  "command_weight (CPrim p) = 1"
| "command_weight (CParams kvs) = 1"
| "command_weight (CSegmentPath s) = 1"
| "command_weight (COutlets os) = Suc (outlets_weight os)"
| "outlet_weight (OString s) = 1"
| "outlet_weight ONull = 0"
| "outlet_weight (OArray cs) = commands_weight cs"
| "outlets_weight [] = 0"
| "outlets_weight (kv # rest) = Suc (outlet_weight (snd kv) + outlets_weight rest)"
| "commands_weight [] = 0"
| "commands_weight (c # cs) = command_weight c + commands_weight cs"

lemma command_weight_nth: "i < length cs \<Longrightarrow> command_weight (cs ! i) \<le> commands_weight cs"
  by (induction cs arbitrary: i)
     (auto simp: nth_Cons split: nat.splits intro: le_trans trans_le_add2)

lemma outlets_weight_member: "(k, v) \<in> set os \<Longrightarrow> outlet_weight v < outlets_weight os"
  by (induction os) auto

lemma outlet_command_list_weight:
  "outlet_command_list v = Some cs \<Longrightarrow> commands_weight cs \<le> outlet_weight v"
  by (cases v) auto

text \<open>\<^verbatim>\<open>stringify\<close>.\<close>

definition stringify :: "(string \<times> prim) list \<Rightarrow> (string \<times> string) list" where
  "stringify params = map (\<lambda>(k, v). (k, prim_to_string v)) params"

text \<open>\<^verbatim>\<open>isMatrixParams(c)\<close> together with the entries of \<^verbatim>\<open>c\<close>; \<open>None\<close> is \<^verbatim>\<open>null\<close>.\<close>

fun matrix_params_of :: "command option \<Rightarrow> (string \<times> prim) list option" where
  "matrix_params_of (Some (CParams kvs)) = Some kvs"
| "matrix_params_of c = None"

text \<open>
  \<^verbatim>\<open>createNewSegmentGroup\<close>: its loop, with the variables \<^verbatim>\<open>i\<close> and \<^verbatim>\<open>paths\<close> as
  arguments, and \<^verbatim>\<open>createNewSegmentChildren\<close>. Below the test for an outlets command
  \<^verbatim>\<open>curr\<close> is always the template string of the command. \<^verbatim>\<open>p.path\<close> of a segment that
  does not exist throws a TypeError.
\<close>

function createNewSegmentGroup_loop ::
    "url_segment list \<Rightarrow> int \<Rightarrow> command list \<Rightarrow> nat \<Rightarrow> url_segment list \<Rightarrow>
     error + url_segment_group"
  and createNewSegmentChildren ::
    "(string \<times> outlet_commands) list \<Rightarrow> error + (string \<times> url_segment_group) list" where
  "createNewSegmentGroup_loop segs startIndex cmds i paths =
     (if i < length cmds then
        (case cmds ! i of
           COutlets os \<Rightarrow>
             (case createNewSegmentChildren os of
                Inl e \<Rightarrow> Inl e
              | Inr chs \<Rightarrow> Inr (UrlSegmentGroup paths chs))
         | command \<Rightarrow>
             (case (if i = 0 then matrix_params_of (Some (cmds ! 0)) else None) of
                Some params \<Rightarrow>
                  (case js_nth segs startIndex of
                     None \<Rightarrow> Inl TypeError
                   | Some p \<Rightarrow>
                       createNewSegmentGroup_loop segs startIndex cmds (i + 1)
                         (paths @ [\<lparr>path = path p, parameters = stringify params\<rparr>]))
              | None \<Rightarrow>
                  let curr = to_string command;
                      next = (if i + 1 < length cmds then Some (cmds ! (i + 1)) else None)
                  in (case (if curr \<noteq> [] then matrix_params_of next else None) of
                        Some params \<Rightarrow>
                          createNewSegmentGroup_loop segs startIndex cmds (i + 2)
                            (paths @ [\<lparr>path = curr, parameters = stringify params\<rparr>])
                      | None \<Rightarrow>
                          createNewSegmentGroup_loop segs startIndex cmds (i + 1)
                            (paths @ [\<lparr>path = curr, parameters = []\<rparr>]))))
      else Inr (UrlSegmentGroup paths []))"
| "createNewSegmentChildren outlets =
     forEach_outlet
       (\<lambda>outlet cs. createNewSegmentGroup_loop [] 0 cs 0 (js_slice [] 0 0))
       outlets []"
  by pat_completeness auto
termination
  apply (relation "inv_image (less_than <*lex*> less_than)
    (\<lambda>x. case x of
       Inl (segs, startIndex, cmds, i, paths) \<Rightarrow> (commands_weight cmds, Suc (length cmds - i))
     | Inr os \<Rightarrow> (outlets_weight os, 0))")
         apply simp_all
  subgoal by auto
  subgoal for cmds i os
    using command_weight_nth [of i cmds] by simp
  subgoal for outlets outlet v cs
    using outlets_weight_member [of outlet v outlets] outlet_command_list_weight [of v cs]
    by simp
  done

declare createNewSegmentGroup_loop.simps [simp del]

definition createNewSegmentGroup ::
  "url_segment_group \<Rightarrow> int \<Rightarrow> command list \<Rightarrow> error + url_segment_group" where
  "createNewSegmentGroup sg startIndex cmds =
     createNewSegmentGroup_loop (segments sg) startIndex cmds 0
       (js_slice (segments sg) 0 startIndex)"

text \<open>\<^verbatim>\<open>getOutlets\<close>.\<close>

fun getOutlets :: "command list \<Rightarrow> (string \<times> outlet_commands) list" where
  "getOutlets (COutlets os # cs) = os"
| "getOutlets cs = [(PRIMARY_OUTLET, OArray cs)]"

text \<open>What the recursion of \<^verbatim>\<open>updateSegmentGroup\<close> decreases.\<close>

fun group_weight :: "url_segment_group \<Rightarrow> nat" where
  "group_weight (UrlSegmentGroup segs chs) =
     sum_list (map (\<lambda>kc. Suc (group_weight (snd kc))) chs)"

fun starts_with_outlets :: "command list \<Rightarrow> bool" where
  "starts_with_outlets [] = False"
| "starts_with_outlets (c # cs) = isCommandWithOutlets c"

definition group_measure :: "url_segment_group option \<Rightarrow> nat" where
  "group_measure go = (case go of None \<Rightarrow> 1 | Some g \<Rightarrow> 4 * group_weight g + 1)"

definition children_measure :: "url_segment_group \<Rightarrow> command list \<Rightarrow> nat" where
  "children_measure g cmds =
     (if starts_with_outlets cmds then 0 else max 2 (4 * group_weight g - 1))"

lemma prefixedWith_loop_done:
  "\<not> i < int (length segs) \<Longrightarrow>
   prefixedWith_loop segs cmds i j = Inr \<lparr>match = True, pathIndex = i, commandIndex = j\<rparr>"
  by (simp add: prefixedWith_loop.simps [of segs cmds i j])

lemma prefixedWith_loop_exhausted:
  "i < int (length segs) \<Longrightarrow> length cmds \<le> j \<Longrightarrow> prefixedWith_loop segs cmds i j = Inr noMatch"
  by (simp add: prefixedWith_loop.simps [of segs cmds i j])

lemma prefixedWith_loop_outlets:
  "i < int (length segs) \<Longrightarrow> j < length cmds \<Longrightarrow> isCommandWithOutlets (cmds ! j) \<Longrightarrow>
   prefixedWith_loop segs cmds i j = Inr \<lparr>match = True, pathIndex = i, commandIndex = j\<rparr>"
  by (simp add: prefixedWith_loop.simps [of segs cmds i j])

lemma prefixedWith_loop_unfold:
  assumes "i < int (length segs)" and "j < length cmds"
    and "\<not> isCommandWithOutlets (cmds ! j)"
  shows "prefixedWith_loop segs cmds i j =
     (case parameters_object cmds j of
        Some params \<Rightarrow>
          (case compare (to_string (cmds ! j)) params (js_nth segs i) of
             Inl e \<Rightarrow> Inl e
           | Inr eq \<Rightarrow>
               if \<not> eq then Inr noMatch else prefixedWith_loop segs cmds (i + 1) (j + 2))
      | None \<Rightarrow>
          (case compare (to_string (cmds ! j)) [] (js_nth segs i) of
             Inl e \<Rightarrow> Inl e
           | Inr eq \<Rightarrow>
               if \<not> eq then Inr noMatch else prefixedWith_loop segs cmds (i + 1) (j + 1)))"
  using assms
  by (subst prefixedWith_loop.simps)
     (simp add: Let_def parameters_object_def next_command_def)

lemma prefixedWith_loop_partial:
  assumes "nat (int (length segs) - i) = n"
    and "prefixedWith_loop segs cmds i j = Inr m" and "match m"
    and "pathIndex m < int (length segs)"
  shows "commandIndex m < length cmds \<and> isCommandWithOutlets (cmds ! commandIndex m)"
  using assms
proof (induction n arbitrary: i j)
  case 0
  then have ni: "\<not> i < int (length segs)" by simp
  from prefixedWith_loop_done [OF ni, of cmds j] "0.prems"(2,4) ni show ?case by auto
next
  case (Suc n)
  from Suc.prems(1) have il: "i < int (length segs)" by simp
  show ?case
  proof (cases "j < length cmds")
    case False
    with il Suc.prems(2,3) show ?thesis
      by (auto simp: prefixedWith_loop_exhausted noMatch_def)
  next
    case True
    show ?thesis
    proof (cases "isCommandWithOutlets (cmds ! j)")
      case t: True
      from prefixedWith_loop_outlets [OF il True t] Suc.prems(2) True t show ?thesis by auto
    next
      case False
      have n: "nat (int (length segs) - (i + 1)) = n" using Suc.prems(1) by simp
      from Suc.prems(2) [unfolded prefixedWith_loop_unfold [OF il True False]] Suc.prems(3)
      consider "prefixedWith_loop segs cmds (i + 1) (j + 2) = Inr m"
        | "prefixedWith_loop segs cmds (i + 1) (j + 1) = Inr m"
        by (auto simp: noMatch_def split: option.splits sum.splits if_splits)
      then show ?thesis
      proof cases
        case 1
        from Suc.IH [OF n 1 Suc.prems(3,4)] show ?thesis .
      next
        case 2
        from Suc.IH [OF n 2 Suc.prems(3,4)] show ?thesis .
      qed
    qed
  qed
qed

lemma prefixedWith_partial:
  assumes "prefixedWith sg startIndex cmds = Inr m" and "match m"
    and "pathIndex m < int (length (segments sg))"
  shows "starts_with_outlets (drop (commandIndex m) cmds)"
proof -
  from prefixedWith_loop_partial [OF refl assms(1) [unfolded prefixedWith_def] assms(2,3)]
  have "commandIndex m < length cmds" and "isCommandWithOutlets (cmds ! commandIndex m)"
    by simp_all
  then show ?thesis
    by (simp add: Cons_nth_drop_Suc [symmetric])
qed

lemma commands_weight_drop: "commands_weight (drop n cs) \<le> commands_weight cs"
proof (induction cs arbitrary: n)
  case Nil
  then show ?case by simp
next
  case (Cons c cs)
  show ?case
  proof (cases n)
    case 0
    then show ?thesis by simp
  next
    case (Suc k)
    with Cons.IH [of k] show ?thesis by simp
  qed
qed

lemma group_weight_child:
  "map_of (children g) k = Some c \<Longrightarrow> group_weight c < group_weight g"
proof (cases g)
  case (UrlSegmentGroup segs chs)
  assume "map_of (children g) k = Some c"
  then have "(k, c) \<in> set chs"
    by (simp add: UrlSegmentGroup map_of_SomeD)
  then have "Suc (group_weight c) \<le> sum_list (map (\<lambda>kc. Suc (group_weight (snd kc))) chs)"
    by (induction chs) auto
  then show ?thesis by (simp add: UrlSegmentGroup)
qed

lemma group_weight_hasChildren: "hasChildren g \<Longrightarrow> 0 < group_weight g"
  by (cases g; cases "children g") (auto simp: hasChildren_def)

lemma children_measure_hasChildren:
  "hasChildren g \<Longrightarrow> children_measure g cs < group_measure (Some g)"
  using group_weight_hasChildren [of g]
  by (auto simp: children_measure_def group_measure_def)

lemma children_measure_outlets:
  "starts_with_outlets cs \<Longrightarrow> children_measure g cs < group_measure sgo"
  by (simp add: children_measure_def group_measure_def split: option.splits)

lemma group_measure_child:
  "\<not> starts_with_outlets cs \<Longrightarrow>
   group_measure (map_of (children g) k) < children_measure g cs"
proof (cases "map_of (children g) k")
  case None
  assume "\<not> starts_with_outlets cs"
  with None show ?thesis by (simp add: children_measure_def group_measure_def)
next
  case (Some c)
  assume "\<not> starts_with_outlets cs"
  with group_weight_child [OF Some] show ?thesis
    by (auto simp: children_measure_def group_measure_def Some)
qed

lemma getOutlets_cases:
  assumes "(k, v) \<in> set (getOutlets cmds)" and "outlet_command_list v = Some cs"
  shows "commands_weight cs < commands_weight cmds \<or>
         (cs = cmds \<and> k = PRIMARY_OUTLET \<and> \<not> starts_with_outlets cmds)"
proof (cases "starts_with_outlets cmds")
  case True
  then obtain os rest where c: "cmds = COutlets os # rest"
    by (cases cmds rule: getOutlets.cases) auto
  with assms(1) have "(k, v) \<in> set os" by simp
  from outlets_weight_member [OF this] outlet_command_list_weight [OF assms(2)]
  show ?thesis by (simp add: c)
next
  case False
  then have "getOutlets cmds = [(PRIMARY_OUTLET, OArray cmds)]"
    by (cases cmds rule: getOutlets.cases) auto
  with assms False show ?thesis by auto
qed

text \<open>
  \<^verbatim>\<open>updateSegmentGroup\<close> and \<^verbatim>\<open>updateSegmentGroupChildren\<close>. The first argument of
  \<^verbatim>\<open>updateSegmentGroup\<close> is \<open>None\<close> when \<^verbatim>\<open>segmentGroup.children[outlet]\<close> is
  \<^verbatim>\<open>undefined\<close>.
\<close>

function updateSegmentGroup ::
    "url_segment_group option \<Rightarrow> int \<Rightarrow> command list \<Rightarrow> error + url_segment_group"
  and updateSegmentGroupChildren ::
    "url_segment_group \<Rightarrow> int \<Rightarrow> command list \<Rightarrow> error + url_segment_group" where
  "updateSegmentGroup sgo startIndex cmds =
     (let sg = (case sgo of None \<Rightarrow> UrlSegmentGroup [] [] | Some g \<Rightarrow> g) in
      if segments sg = [] \<and> hasChildren sg then updateSegmentGroupChildren sg startIndex cmds
      else
        (case prefixedWith sg startIndex cmds of
           Inl e \<Rightarrow> Inl e
         | Inr m \<Rightarrow>
             let slicedCommands = drop (commandIndex m) cmds in
             if match m \<and> pathIndex m < int (length (segments sg)) then
               updateSegmentGroupChildren
                 (UrlSegmentGroup (js_slice (segments sg) 0 (pathIndex m))
                    [(PRIMARY_OUTLET,
                      UrlSegmentGroup (js_slice_from (segments sg) (pathIndex m)) (children sg))])
                 0 slicedCommands
             else if match m \<and> slicedCommands = [] then Inr (UrlSegmentGroup (segments sg) [])
             else if match m \<and> \<not> hasChildren sg then createNewSegmentGroup sg startIndex cmds
             else if match m then updateSegmentGroupChildren sg 0 slicedCommands
             else createNewSegmentGroup sg startIndex cmds))"
| "updateSegmentGroupChildren sg startIndex cmds =
     (if cmds = [] then Inr (UrlSegmentGroup (segments sg) [])
      else
        let outlets = getOutlets cmds in
        (case forEach_outlet
                (\<lambda>outlet cs. updateSegmentGroup (map_of (children sg) outlet) startIndex cs)
                outlets [] of
           Inl e \<Rightarrow> Inl e
         | Inr chs \<Rightarrow>
             Inr (UrlSegmentGroup (segments sg)
                    (fold (\<lambda>(childOutlet, child) acc.
                             if map_of outlets childOutlet = None
                             then AList.update childOutlet child acc else acc)
                       (children sg) chs))))"
  by pat_completeness auto
termination
  apply (relation "inv_image (less_than <*lex*> less_than)
    (\<lambda>x. case x of
       Inl (sgo, startIndex, cmds) \<Rightarrow> (commands_weight cmds, group_measure sgo)
     | Inr (sg, startIndex, cmds) \<Rightarrow> (commands_weight cmds, children_measure sg cmds))")
  subgoal by auto
  subgoal for sgo startIndex cmds sg
    by (cases sgo) (simp_all add: hasChildren_def children_measure_hasChildren)
  subgoal for sgo startIndex cmds sg m slicedCommands
    using commands_weight_drop [of "commandIndex m" cmds]
    by (auto simp: children_measure_outlets prefixedWith_partial)
  subgoal for sgo startIndex cmds sg m slicedCommands
    using commands_weight_drop [of "commandIndex m" cmds]
    by (cases sgo) (auto simp: hasChildren_def children_measure_hasChildren)
  subgoal for sg startIndex cmds outlets outlet v cs
    using getOutlets_cases [of outlet v cmds cs] group_measure_child [of cmds sg PRIMARY_OUTLET]
    by auto
  done

declare updateSegmentGroup.simps [simp del] updateSegmentGroupChildren.simps [simp del]

subsection \<open>Assembling the tree\<close>

text \<open>
  \<^verbatim>\<open>replaceSegment\<close>. \<open>current\<close> and \<open>oldSegment\<close> are the outlet names from the root
  down to the group \<^verbatim>\<open>current\<close> and to the group \<^verbatim>\<open>oldSegment\<close>; the child under
  \<open>outletName\<close> is the object \<^verbatim>\<open>oldSegment\<close> when the two ways are the same.
\<close>

fun replaceSegment ::
  "url_segment_group \<Rightarrow> string list \<Rightarrow> string list \<Rightarrow> url_segment_group \<Rightarrow>
   url_segment_group" where
  "replaceSegment (UrlSegmentGroup segs chs) current oldSegment newSegment =
     UrlSegmentGroup segs
       (map (\<lambda>kc. if current @ [fst kc] = oldSegment then (fst kc, newSegment)
                   else (fst kc,
                         replaceSegment (snd kc) (current @ [fst kc]) oldSegment newSegment))
          chs)"

text \<open>
  Modelled from the spec: \<^verbatim>\<open>squashSegmentGroup\<close> of \<^verbatim>\<open>url_tree.ts\<close>, which is not among
  the sources. Section 4.4: recursively collapse any non-root group that has an empty
  segment list and exactly one outlet child into that child. The children of a group are
  squashed first; the group given to \<open>squashSegmentGroup\<close> is the root and stays.
\<close>

fun squash_below_root :: "url_segment_group \<Rightarrow> url_segment_group" where
  "squash_below_root (UrlSegmentGroup segs chs) =
     (case map (\<lambda>kc. (fst kc, squash_below_root (snd kc))) chs of
        [(outlet, child)] \<Rightarrow>
          if segs = [] then child else UrlSegmentGroup segs [(outlet, child)]
      | chs' \<Rightarrow> UrlSegmentGroup segs chs')"

definition squashSegmentGroup :: "url_segment_group \<Rightarrow> url_segment_group" where
  "squashSegmentGroup g =
     UrlSegmentGroup (segments g)
       (map (\<lambda>kc. (fst kc, squash_below_root (snd kc))) (children g))"

text \<open>
  Modelled from the spec: \<^verbatim>\<open>createRoot\<close> of \<^verbatim>\<open>url_tree.ts\<close>, which is not among the
  sources. Section 4.4 goes from squashing to attaching the query parameters and the
  fragment: the squashed root candidate is the root of the tree returned.
\<close>

definition createRoot :: "url_segment_group \<Rightarrow> url_segment_group" where
  "createRoot rootCandidate = rootCandidate"

text \<open>
  Query parameters: a value is an array, stringified element by element, or any other
  value, stringified as a whole.
\<close>

datatype query_value = QValue prim | QArray "prim list"

datatype query_string = QString string | QStrings "string list"

fun stringify_query :: "query_value \<Rightarrow> query_string" where
  "stringify_query (QValue v) = QString (prim_to_string v)"
| "stringify_query (QArray vs) = QStrings (map prim_to_string vs)"

record url_tree =
  root :: url_segment_group
  queryParams :: "(string \<times> query_string) list"
  fragment :: "string option"

text \<open>
  \<^verbatim>\<open>tree\<close>. \<open>oldSegmentGroup\<close> is the way from \<open>oldRoot\<close> down to that group, so
  \<^verbatim>\<open>oldRoot === oldSegmentGroup\<close> holds when it is empty.
\<close>

definition tree ::
  "url_segment_group \<Rightarrow> string list \<Rightarrow> url_segment_group \<Rightarrow>
   (string \<times> query_value) list option \<Rightarrow> string option \<Rightarrow> url_tree" where
  "tree oldRoot oldSegmentGroup newSegmentGroup qps frag =
     (let qp = (case qps of
                  None \<Rightarrow> []
                | Some kvs \<Rightarrow> map (\<lambda>(name, v). (name, stringify_query v)) kvs);
          rootCandidate =
            (if oldSegmentGroup = [] then newSegmentGroup
             else replaceSegment oldRoot [] oldSegmentGroup newSegmentGroup);
          newRoot = createRoot (squashSegmentGroup rootCandidate)
      in \<lparr>root = newRoot, queryParams = qp, fragment = frag\<rparr>)"

subsection \<open>The entry points\<close>

text \<open>
  The conditional both entry points evaluate at the starting position:
  \<^verbatim>\<open>updateSegmentGroupChildren\<close> when \<^verbatim>\<open>processChildren\<close> is set, else
  \<^verbatim>\<open>updateSegmentGroup\<close>.
\<close>

definition update_at_position :: "position \<Rightarrow> command list \<Rightarrow> error + url_segment_group" where
  "update_at_position pos cmds =
     (if processChildren pos
      then updateSegmentGroupChildren (fst (segmentGroup pos)) (index pos) cmds
      else updateSegmentGroup (Some (fst (segmentGroup pos))) (index pos) cmds)"

definition createUrlTreeFromSegmentGroup ::
  "location \<Rightarrow> command list \<Rightarrow> (string \<times> query_value) list option \<Rightarrow> string option \<Rightarrow>
   error + url_tree" where
  "createUrlTreeFromSegmentGroup relativeTo cmds qps frag =
     (let rt = root_of relativeTo in
      if length cmds = 0 then Inr (tree rt [] rt qps frag)
      else
        (case computeNavigation cmds of
           Inl e \<Rightarrow> Inl e
         | Inr nav \<Rightarrow>
             if toRoot nav then Inr (tree rt [] (UrlSegmentGroup [] []) qps frag)
             else
               (case findStartingPositionForTargetGroup nav rt relativeTo of
                  Inl e \<Rightarrow> Inl e
                | Inr pos \<Rightarrow>
                    (case update_at_position pos (commands nav) of
                       Inl e \<Rightarrow> Inl e
                     | Inr newSegmentGroup \<Rightarrow>
                         Inr (tree rt (path_of (segmentGroup pos)) newSegmentGroup qps frag)))))"

text \<open>
  \<^verbatim>\<open>createUrlTree\<close>, for a route whose snapshot holds the segment group \<open>urlSegment\<close> of
  the tree \<^verbatim>\<open>urlTree\<close> (so that \<^verbatim>\<open>urlTree.root\<close> is \<open>root_of urlSegment\<close>) and the index
  \<open>lastPathIndex\<close>.
\<close>

definition createUrlTree ::
  "location \<Rightarrow> int \<Rightarrow> command list \<Rightarrow> (string \<times> query_value) list option \<Rightarrow>
   string option \<Rightarrow> error + url_tree" where
  "createUrlTree urlSegment lastPathIndex cmds qps frag =
     (let rt = root_of urlSegment in
      if length cmds = 0 then Inr (tree rt [] rt qps frag)
      else
        (case computeNavigation cmds of
           Inl e \<Rightarrow> Inl e
         | Inr nav \<Rightarrow>
             if toRoot nav then Inr (tree rt [] (UrlSegmentGroup [] []) qps frag)
             else
               (case findStartingPosition nav urlSegment lastPathIndex of
                  Inl e \<Rightarrow> Inl e
                | Inr pos \<Rightarrow>
                    (case update_at_position pos (commands nav) of
                       Inl e \<Rightarrow> Inl e
                     | Inr newSegmentGroup \<Rightarrow>
                         Inr (tree rt (path_of (segmentGroup pos)) newSegmentGroup qps frag)))))"

subsection \<open>Squashed trees\<close>

text \<open>
  The invariant of section 3 and section 8 of the specification: below the root, no group
  has an empty segment list together with exactly one child.
\<close>

fun no_bare_level :: "url_segment_group \<Rightarrow> bool" where
  "no_bare_level (UrlSegmentGroup segs chs) =
     (\<not> (segs = [] \<and> length chs = 1) \<and> list_all (\<lambda>kc. no_bare_level (snd kc)) chs)"

definition squashed :: "url_segment_group \<Rightarrow> bool" where
  "squashed g = list_all (\<lambda>kc. no_bare_level (snd kc)) (children g)"

text \<open>The query parameters \<^verbatim>\<open>tree\<close> attaches: \<^verbatim>\<open>qp\<close>.\<close>

definition stringify_queryParams ::
  "(string \<times> query_value) list option \<Rightarrow> (string \<times> query_string) list" where
  "stringify_queryParams qps =
     (case qps of None \<Rightarrow> [] | Some kvs \<Rightarrow> map (\<lambda>(name, v). (name, stringify_query v)) kvs)"

section \<open>Properties\<close>

subsection \<open>Normalisation of the commands\<close>

lemma computeNavigation_normalized:
  "computeNavigation cmds =
     (case normalized cmds of (res, isAbs, ndd) \<Rightarrow> Navigation isAbs ndd res)"
  by (simp add: computeNavigation_def normalized_def)

lemma reduce_step_later:
  "reduce_step (Suc n) c (res, a, d) = (res @ [pass_through c], a, d)"
  apply (cases c) apply simp_all
  subgoal for p by (cases p) simp_all
  done

lemma reduce_step_not_string:
  "\<forall>s. c \<noteq> CPrim (PStr s) \<Longrightarrow> reduce_step n c (res, a, d) = (res @ [pass_through c], a, d)"
  apply (cases c) apply simp_all
  subgoal for p by (cases p) simp_all
  done

lemma reduce_commands_later:
  "reduce_commands (Suc n) cs (res, a, d) = (res @ map pass_through cs, a, d)"
  by (induction cs arbitrary: n res) (simp_all add: reduce_step_later)

lemma url_parts_forEach_eq:
  "url_parts_forEach i ps (res, a, d) =
     (res @ classified_parts i ps, a \<or> (i = 0 \<and> ps \<noteq> [] \<and> hd ps = []),
      d + int (count_list ps ''..''))"
proof (induction ps arbitrary: i res a d)
  case Nil
  then show ?case by (simp add: classified_parts_def)
next
  case (Cons p ps)
  show ?case
    by (simp add: url_part_step_def Cons.IH classified_parts_def kept_part_def)
qed

lemma split_slash_not_Nil: "split_slash s \<noteq> []"
  by (induction s) (simp_all split: list.splits)

lemma reduce_commands_classify:
  "reduce_commands 0 cmds ([], False, 0) = classify_commands cmds"
proof (cases cmds)
  case Nil
  then show ?thesis by simp
next
  case (Cons c cs)
  show ?thesis
  proof (cases "\<exists>s. c = CPrim (PStr s)")
    case True
    then obtain s where c: "c = CPrim (PStr s)" by blast
    show ?thesis
      by (simp add: Cons c url_parts_forEach_eq reduce_commands_later split_slash_not_Nil)
  next
    case False
    then have ns: "\<forall>s. c \<noteq> CPrim (PStr s)" by blast
    then have "classify_commands (c # cs) = (map pass_through (c # cs), False, 0)"
    proof (cases c)
      case (CPrim p)
      with ns show ?thesis by (cases p; cases cs) simp_all
    qed (cases cs; simp)+
    with ns show ?thesis
      by (simp add: Cons reduce_step_not_string reduce_commands_later)
  qed
qed

lemma computeNavigation_classify:
  "cmds \<noteq> [CPrim (PStr ''/'')] \<Longrightarrow>
   computeNavigation cmds =
     (case classify_commands cmds of (res, isAbs, ndd) \<Rightarrow> Navigation isAbs ndd res)"
  by (simp add: computeNavigation_def reduce_commands_classify)



text \<open>
  The special case of section 4.1: the command list \<^verbatim>\<open>['/']\<close> is not split; the token
  stays the one command of an absolute navigation, which \<^verbatim>\<open>toRoot\<close> recognises.
\<close>

lemma computeNavigation_root_marker:
  "computeNavigation [CPrim (PStr ''/'')] =
     Inr \<lparr>isAbsolute = True, numberOfDoubleDots = 0, commands = [CPrim (PStr ''/'')]\<rparr> \<and>
   toRoot \<lparr>isAbsolute = True, numberOfDoubleDots = 0, commands = [CPrim (PStr ''/'')]\<rparr>"
  by (simp add: computeNavigation_def Navigation_def toRoot_def)

subsection \<open>Validation of the normalised commands\<close>

lemma find_outlets_index_None:
  "find_outlets_index cs = None \<longleftrightarrow> (\<forall>c \<in> set cs. \<not> isCommandWithOutlets c)"
  by (induction cs) auto

lemma find_outlets_index_Some:
  "find_outlets_index cs = Some i \<Longrightarrow>
   i < length cs \<and> isCommandWithOutlets (cs ! i) \<and> (\<forall>j < i. \<not> isCommandWithOutlets (cs ! j))"
proof (induction cs arbitrary: i)
  case Nil
  then show ?case by simp
next
  case (Cons c cs)
  show ?case
  proof (cases "isCommandWithOutlets c")
    case True
    with Cons.prems show ?thesis by simp
  next
    case False
    with Cons.prems obtain k where k: "find_outlets_index cs = Some k" "i = Suc k"
      by auto
    from Cons.IH [OF k(1)] False k(2) show ?thesis
      by (auto simp: less_Suc_eq_0_disj)
  qed
qed

lemma Navigation_misplaced:
  assumes "j < length cs - 1" and "isCommandWithOutlets (cs ! j)"
  shows "Navigation isAbs ndd cs =
           (if isAbs \<and> isMatrixParams (cs ! 0) then Inl RootSegmentMatrixParams
            else Inl MisplacedOutletsCommand)"
proof -
  from assms have jl: "j < length cs" by simp
  then have "cs ! j \<in> set cs" by simp
  with assms(2) have "find_outlets_index cs \<noteq> None"
    by (auto simp: find_outlets_index_None)
  then obtain i where i: "find_outlets_index cs = Some i" by blast
  from find_outlets_index_Some [OF i] assms(2) have "i \<le> j"
    by (meson not_le)
  with assms(1) have "i \<noteq> length cs - 1" by simp
  moreover from jl have "cs \<noteq> []" by auto
  ultimately show ?thesis using i by (simp add: Navigation_def)
qed

lemma normalized_Nil: "normalized [] = ([], False, 0)"
  by (simp add: normalized_def)

lemma computeNavigation_misplaced:
  assumes "normalized cmds = (res, isAbs, ndd)"
    and "j < length res - 1" and "isCommandWithOutlets (res ! j)"
  shows "computeNavigation cmds = Inl (misplaced_error isAbs res)"
  using assms
  by (simp add: computeNavigation_normalized Navigation_misplaced misplaced_error_def)

lemma misplaced_nonempty:
  assumes "normalized cmds = (res, isAbs, ndd)" and "j < length res - 1"
  shows "length cmds \<noteq> 0"
  using assms by (cases cmds) (auto simp: normalized_Nil)

text \<open>
  C8, as amended. Whenever the normalised command list \<open>res\<close> holds an outlets command
  at a position \<open>j\<close> before the last, \<^verbatim>\<open>computeNavigation\<close> throws and neither entry
  point returns a tree. The exception is \<^verbatim>\<open>MisplacedOutletsCommand\<close>, unless the
  navigation is absolute and the first normalised command is a matrix-parameter object:
  the constructor tests that first and throws \<^verbatim>\<open>RootSegmentMatrixParams\<close>. The
  commands \<^verbatim>\<open>["a", {outlets: {x: "y"}}, "b"]\<close> throw \<^verbatim>\<open>MisplacedOutletsCommand\<close>.
\<close>

theorem C8_misplaced_outlets_raises:
  "(\<forall>cmds res isAbs ndd j anchor lastPathIndex qps frag.
      normalized cmds = (res, isAbs, ndd) \<and> j < length res - 1 \<and>
      isCommandWithOutlets (res ! j) \<longrightarrow>
        computeNavigation cmds = Inl (misplaced_error isAbs res) \<and>
        createUrlTreeFromSegmentGroup anchor cmds qps frag = Inl (misplaced_error isAbs res) \<and>
        createUrlTree anchor lastPathIndex cmds qps frag = Inl (misplaced_error isAbs res)) \<and>
   computeNavigation
     [CPrim (PStr ''a''), COutlets [(''x'', OString ''y'')], CPrim (PStr ''b'')] =
     Inl MisplacedOutletsCommand"
proof (intro conjI allI impI)
  fix cmds res isAbs ndd j anchor lastPathIndex qps frag
  assume a: "normalized cmds = (res, isAbs, ndd) \<and> j < length res - 1 \<and>
    isCommandWithOutlets (res ! j)"
  then have cn: "computeNavigation cmds = Inl (misplaced_error isAbs res)"
    using computeNavigation_misplaced [of cmds res isAbs ndd j] by simp
  from a have ne: "length cmds \<noteq> 0"
    using misplaced_nonempty [of cmds res isAbs ndd j] by simp
  show "computeNavigation cmds = Inl (misplaced_error isAbs res)" by (rule cn)
  show "createUrlTreeFromSegmentGroup anchor cmds qps frag = Inl (misplaced_error isAbs res)"
    using cn ne by (simp add: createUrlTreeFromSegmentGroup_def)
  show "createUrlTree anchor lastPathIndex cmds qps frag = Inl (misplaced_error isAbs res)"
    using cn ne by (simp add: createUrlTree_def)
next
  show "computeNavigation
     [CPrim (PStr ''a''), COutlets [(''x'', OString ''y'')], CPrim (PStr ''b'')] =
     Inl MisplacedOutletsCommand"
    by (simp add: computeNavigation_def url_part_step_def Navigation_def)
qed

theorem C8_misplaced_outlets_raises_witness:
  "normalized [CPrim (PStr ''x''), COutlets [(''a'', OString ''b'')], CPrim (PStr ''c'')] =
     ([CPrim (PStr ''x''), COutlets [(''a'', OArray [CPrim (PStr ''b'')])], CPrim (PStr ''c'')],
      False, 0) \<and>
   (1::nat) < length [CPrim (PStr ''x''), COutlets [(''a'', OArray [CPrim (PStr ''b'')])],
                      CPrim (PStr ''c'')] - 1 \<and>
   isCommandWithOutlets
     ([CPrim (PStr ''x''), COutlets [(''a'', OArray [CPrim (PStr ''b'')])],
       CPrim (PStr ''c'')] ! 1) \<and>
   createUrlTreeFromSegmentGroup (UrlSegmentGroup [] [], [])
     [CPrim (PStr ''x''), COutlets [(''a'', OString ''b'')], CPrim (PStr ''c'')] None None =
     Inl MisplacedOutletsCommand"
proof -
  have n: "normalized [CPrim (PStr ''x''), COutlets [(''a'', OString ''b'')], CPrim (PStr ''c'')] =
     ([CPrim (PStr ''x''), COutlets [(''a'', OArray [CPrim (PStr ''b'')])], CPrim (PStr ''c'')],
      False, 0)"
    by (simp add: normalized_def url_part_step_def)
  have h: "normalized [CPrim (PStr ''x''), COutlets [(''a'', OString ''b'')], CPrim (PStr ''c'')] =
       ([CPrim (PStr ''x''), COutlets [(''a'', OArray [CPrim (PStr ''b'')])], CPrim (PStr ''c'')],
        False, 0) \<and>
     (1::nat) < length [CPrim (PStr ''x''), COutlets [(''a'', OArray [CPrim (PStr ''b'')])],
                        CPrim (PStr ''c'')] - 1 \<and>
     isCommandWithOutlets
       ([CPrim (PStr ''x''), COutlets [(''a'', OArray [CPrim (PStr ''b'')])],
         CPrim (PStr ''c'')] ! 1)"
    using n by simp
  from C8_misplaced_outlets_raises [THEN conjunct1, rule_format, OF h] h show ?thesis
    by (simp add: misplaced_error_def)
qed

text \<open>
  C8 as stated fails for \<^verbatim>\<open>['/', {a: '1'}, {outlets: {x: 'y'}}, 'b']\<close>: the normalised
  list holds the outlets command before its last position, and the exception is
  \<^verbatim>\<open>RootSegmentMatrixParams\<close>.
\<close>

theorem C8_root_matrix_params_first:
  "normalized [CPrim (PStr ''/''), CParams [(''a'', PStr ''1'')],
               COutlets [(''x'', OString ''y'')], CPrim (PStr ''b'')] =
     ([CParams [(''a'', PStr ''1'')], COutlets [(''x'', OArray [CPrim (PStr ''y'')])],
       CPrim (PStr ''b'')], True, 0) \<and>
   isCommandWithOutlets
     ([CParams [(''a'', PStr ''1'')], COutlets [(''x'', OArray [CPrim (PStr ''y'')])],
       CPrim (PStr ''b'')] ! 1) \<and>
   computeNavigation [CPrim (PStr ''/''), CParams [(''a'', PStr ''1'')],
                      COutlets [(''x'', OString ''y'')], CPrim (PStr ''b'')] =
     Inl RootSegmentMatrixParams"
  by (simp add: normalized_def computeNavigation_def url_part_step_def Navigation_def)

subsection \<open>Double dots\<close>

lemma ancestor_segments_nonneg: "0 \<le> ancestor_segments cs"
  unfolding ancestor_segments_def by (induction cs) auto

lemma ancestor_segments_Cons:
  "ancestor_segments (c # cs) = int (length (crumb_segments c)) + ancestor_segments cs"
  by (simp add: ancestor_segments_def)

lemma segments_plug: "segments (plug c g) = crumb_segments c"
  by (simp add: plug_def)

lemma doubleDots_raises_iff:
  "createPositionApplyingDoubleDots (g, cs) ci dd = Inl InvalidDoubleDots \<longleftrightarrow>
   ci + ancestor_segments cs < dd"
proof (induction cs arbitrary: g ci dd)
  case Nil
  show ?case by (simp add: ancestor_segments_def createPositionApplyingDoubleDots.simps)
next
  case (Cons c cs)
  show ?case
  proof (cases "dd > ci")
    case True
    then show ?thesis
      using Cons.IH [of "plug c g" "int (length (crumb_segments c))" "dd - ci"]
      by (simp add: ancestor_segments_Cons segments_plug
            createPositionApplyingDoubleDots.simps [of g "c # cs"]) linarith
  next
    case False
    with ancestor_segments_nonneg [of "c # cs"] show ?thesis
      by (simp add: createPositionApplyingDoubleDots.simps [of g "c # cs"])
  qed
qed

lemma doubleDots_error: "createPositionApplyingDoubleDots loc ci dd = Inl e \<Longrightarrow> e = InvalidDoubleDots"
proof (induction loc ci dd rule: createPositionApplyingDoubleDots.induct)
  case (1 g cs ci dd)
  from "1.prems" [unfolded createPositionApplyingDoubleDots.simps [of g cs ci dd]] "1.IH"
  show ?case by (auto split: if_splits list.splits)
qed

lemma doubleDots_exact:
  "dd = ci + ancestor_segments cs \<Longrightarrow>
   \<exists>loc. createPositionApplyingDoubleDots (g, cs) ci dd =
     Inr \<lparr>segmentGroup = loc, processChildren = False, index = 0\<rparr>"
proof (induction cs arbitrary: g ci dd)
  case Nil
  then show ?case
    by (simp add: ancestor_segments_def createPositionApplyingDoubleDots.simps)
next
  case (Cons c cs)
  show ?case
  proof (cases "dd > ci")
    case True
    with Cons.prems
    have "dd - ci = int (length (crumb_segments c)) + ancestor_segments cs"
      by (simp add: ancestor_segments_Cons)
    from Cons.IH [OF this, of "plug c g"] True show ?thesis
      by (simp add: segments_plug createPositionApplyingDoubleDots.simps [of g "c # cs"])
  next
    case False
    with Cons.prems ancestor_segments_nonneg [of "c # cs"] have "dd = ci" by simp
    then show ?thesis
      by (simp add: createPositionApplyingDoubleDots.simps [of g "c # cs"])
  qed
qed

text \<open>
  C3. Double-dot consumption from the group \<open>g\<close> with ancestors \<open>cs\<close>, local index
  \<open>ci\<close> and budget \<open>dd\<close>: with \<open>dd \<le> ci\<close> it ends at once with
  \<^verbatim>\<open>Position(g, false, ci - dd)\<close>; with \<open>dd > ci\<close> it throws \<^verbatim>\<open>InvalidDoubleDots\<close> when
  \<open>g\<close> has no parent, and else goes on from the parent with the budget \<open>dd - ci\<close> and
  the parent's number of segments as local index. It throws (and then
  \<^verbatim>\<open>InvalidDoubleDots\<close>) if and only if the budget exceeds the available depth, the local
  index plus the segments of all ancestors; a budget equal to that depth succeeds, and
  lands at index 0.
\<close>

theorem C3_double_dot_consumption:
  "(dd \<le> ci \<longrightarrow>
      createPositionApplyingDoubleDots (g, cs) ci dd =
        Inr \<lparr>segmentGroup = (g, cs), processChildren = False, index = ci - dd\<rparr>) \<and>
   (ci < dd \<longrightarrow>
      createPositionApplyingDoubleDots (g, []) ci dd = Inl InvalidDoubleDots \<and>
      createPositionApplyingDoubleDots (g, c # cs) ci dd =
        createPositionApplyingDoubleDots (plug c g, cs)
          (int (length (segments (plug c g)))) (dd - ci)) \<and>
   ((\<exists>e. createPositionApplyingDoubleDots (g, cs) ci dd = Inl e) \<longleftrightarrow>
      ci + ancestor_segments cs < dd) \<and>
   (createPositionApplyingDoubleDots (g, cs) ci dd = Inl InvalidDoubleDots \<longleftrightarrow>
      ci + ancestor_segments cs < dd) \<and>
   (dd = ci + ancestor_segments cs \<longrightarrow>
      (\<exists>loc. createPositionApplyingDoubleDots (g, cs) ci dd =
         Inr \<lparr>segmentGroup = loc, processChildren = False, index = 0\<rparr>))"
proof (intro conjI impI)
  show "(\<exists>e. createPositionApplyingDoubleDots (g, cs) ci dd = Inl e) \<longleftrightarrow>
      ci + ancestor_segments cs < dd"
    using doubleDots_raises_iff [of g cs ci dd] doubleDots_error [of "(g, cs)" ci dd]
    by blast
next
  assume "dd \<le> ci"
  then show "createPositionApplyingDoubleDots (g, cs) ci dd =
        Inr \<lparr>segmentGroup = (g, cs), processChildren = False, index = ci - dd\<rparr>"
    by (simp add: createPositionApplyingDoubleDots.simps [of g cs])
next
  assume "ci < dd"
  then show "createPositionApplyingDoubleDots (g, []) ci dd = Inl InvalidDoubleDots"
    by (simp add: createPositionApplyingDoubleDots.simps [of g "[]"])
next
  assume "ci < dd"
  then show "createPositionApplyingDoubleDots (g, c # cs) ci dd =
        createPositionApplyingDoubleDots (plug c g, cs)
          (int (length (segments (plug c g)))) (dd - ci)"
    by (simp add: createPositionApplyingDoubleDots.simps [of g "c # cs"])
next
  show "createPositionApplyingDoubleDots (g, cs) ci dd = Inl InvalidDoubleDots \<longleftrightarrow>
      ci + ancestor_segments cs < dd"
    by (rule doubleDots_raises_iff)
next
  assume "dd = ci + ancestor_segments cs"
  then show "\<exists>loc. createPositionApplyingDoubleDots (g, cs) ci dd =
         Inr \<lparr>segmentGroup = loc, processChildren = False, index = 0\<rparr>"
    by (rule doubleDots_exact)
qed

theorem C3_double_dot_consumption_witness:
  "createPositionApplyingDoubleDots
     (UrlSegmentGroup [\<lparr>path = ''c'', parameters = []\<rparr>] [],
      [Crumb [\<lparr>path = ''a'', parameters = []\<rparr>, \<lparr>path = ''b'', parameters = []\<rparr>]
         [] ''primary'' [], Crumb [] [] ''primary'' []]) 1 0 =
     Inr \<lparr>segmentGroup =
            (UrlSegmentGroup [\<lparr>path = ''c'', parameters = []\<rparr>] [],
             [Crumb [\<lparr>path = ''a'', parameters = []\<rparr>, \<lparr>path = ''b'', parameters = []\<rparr>]
                [] ''primary'' [], Crumb [] [] ''primary'' []]),
          processChildren = False, index = 1\<rparr> \<and>
   createPositionApplyingDoubleDots
     (UrlSegmentGroup [\<lparr>path = ''c'', parameters = []\<rparr>] [], []) 1 4 =
     Inl InvalidDoubleDots \<and>
   createPositionApplyingDoubleDots
     (UrlSegmentGroup [\<lparr>path = ''c'', parameters = []\<rparr>] [],
      [Crumb [\<lparr>path = ''a'', parameters = []\<rparr>, \<lparr>path = ''b'', parameters = []\<rparr>]
         [] ''primary'' [], Crumb [] [] ''primary'' []]) 1 4 =
     Inl InvalidDoubleDots \<and>
   (\<exists>loc. createPositionApplyingDoubleDots
     (UrlSegmentGroup [\<lparr>path = ''c'', parameters = []\<rparr>] [],
      [Crumb [\<lparr>path = ''a'', parameters = []\<rparr>, \<lparr>path = ''b'', parameters = []\<rparr>]
         [] ''primary'' [], Crumb [] [] ''primary'' []]) 1 3 =
     Inr \<lparr>segmentGroup = loc, processChildren = False, index = 0\<rparr>)"
  using
    C3_double_dot_consumption [of 0 1 "UrlSegmentGroup [\<lparr>path = ''c'', parameters = []\<rparr>] []"
      "[Crumb [\<lparr>path = ''a'', parameters = []\<rparr>, \<lparr>path = ''b'', parameters = []\<rparr>]
         [] ''primary'' [], Crumb [] [] ''primary'' []]"]
    C3_double_dot_consumption [of 4 1 "UrlSegmentGroup [\<lparr>path = ''c'', parameters = []\<rparr>] []"
      "[Crumb [\<lparr>path = ''a'', parameters = []\<rparr>, \<lparr>path = ''b'', parameters = []\<rparr>]
         [] ''primary'' [], Crumb [] [] ''primary'' []]"]
    C3_double_dot_consumption [of 3 1 "UrlSegmentGroup [\<lparr>path = ''c'', parameters = []\<rparr>] []"
      "[Crumb [\<lparr>path = ''a'', parameters = []\<rparr>, \<lparr>path = ''b'', parameters = []\<rparr>]
         [] ''primary'' [], Crumb [] [] ''primary'' []]"]
  by (simp add: ancestor_segments_def)

subsection \<open>Outlet-children processing\<close>






lemma updateSegmentGroupChildren_segments:
  "updateSegmentGroupChildren sg startIndex cmds = Inr g' \<Longrightarrow> segments g' = segments sg"
  by (auto simp: updateSegmentGroupChildren.simps [of sg startIndex cmds] Let_def
           split: if_splits sum.splits)

text \<open>
  C10. The group \<^verbatim>\<open>updateSegmentGroupChildren\<close> returns has the segment list of the
  group it was given, for every group, start index and command list; with an empty
  command list it is that group without children.
\<close>

theorem C10_children_processing_keeps_segments:
  "(\<forall>sg startIndex cmds g'.
      updateSegmentGroupChildren sg startIndex cmds = Inr g' \<longrightarrow> segments g' = segments sg) \<and>
   (\<forall>sg startIndex.
      updateSegmentGroupChildren sg startIndex [] = Inr (UrlSegmentGroup (segments sg) []))"
  by (auto simp: updateSegmentGroupChildren_segments updateSegmentGroupChildren.simps)

theorem C10_children_processing_keeps_segments_witness:
  "updateSegmentGroupChildren
     (UrlSegmentGroup [\<lparr>path = ''team'', parameters = []\<rparr>, \<lparr>path = ''33'', parameters = []\<rparr>]
        [(''primary'', UrlSegmentGroup [\<lparr>path = ''user'', parameters = []\<rparr>,
                                        \<lparr>path = ''11'', parameters = []\<rparr>] []),
         (''right'', UrlSegmentGroup [\<lparr>path = ''chat'', parameters = []\<rparr>] [])])
     2 [CPrim (PStr ''details'')] =
   Inr (UrlSegmentGroup [\<lparr>path = ''team'', parameters = []\<rparr>, \<lparr>path = ''33'', parameters = []\<rparr>]
          [(''primary'', UrlSegmentGroup [\<lparr>path = ''user'', parameters = []\<rparr>,
                                          \<lparr>path = ''11'', parameters = []\<rparr>,
                                          \<lparr>path = ''details'', parameters = []\<rparr>] []),
           (''right'', UrlSegmentGroup [\<lparr>path = ''chat'', parameters = []\<rparr>] [])]) \<and>
   segments
     (UrlSegmentGroup [\<lparr>path = ''team'', parameters = []\<rparr>, \<lparr>path = ''33'', parameters = []\<rparr>]
          [(''primary'', UrlSegmentGroup [\<lparr>path = ''user'', parameters = []\<rparr>,
                                          \<lparr>path = ''11'', parameters = []\<rparr>,
                                          \<lparr>path = ''details'', parameters = []\<rparr>] []),
           (''right'', UrlSegmentGroup [\<lparr>path = ''chat'', parameters = []\<rparr>] [])]) =
   segments
     (UrlSegmentGroup [\<lparr>path = ''team'', parameters = []\<rparr>, \<lparr>path = ''33'', parameters = []\<rparr>]
        [(''primary'', UrlSegmentGroup [\<lparr>path = ''user'', parameters = []\<rparr>,
                                        \<lparr>path = ''11'', parameters = []\<rparr>] []),
         (''right'', UrlSegmentGroup [\<lparr>path = ''chat'', parameters = []\<rparr>] [])])"
proof -
  have r: "updateSegmentGroupChildren
     (UrlSegmentGroup [\<lparr>path = ''team'', parameters = []\<rparr>, \<lparr>path = ''33'', parameters = []\<rparr>]
        [(''primary'', UrlSegmentGroup [\<lparr>path = ''user'', parameters = []\<rparr>,
                                        \<lparr>path = ''11'', parameters = []\<rparr>] []),
         (''right'', UrlSegmentGroup [\<lparr>path = ''chat'', parameters = []\<rparr>] [])])
     2 [CPrim (PStr ''details'')] =
   Inr (UrlSegmentGroup [\<lparr>path = ''team'', parameters = []\<rparr>, \<lparr>path = ''33'', parameters = []\<rparr>]
          [(''primary'', UrlSegmentGroup [\<lparr>path = ''user'', parameters = []\<rparr>,
                                          \<lparr>path = ''11'', parameters = []\<rparr>,
                                          \<lparr>path = ''details'', parameters = []\<rparr>] []),
           (''right'', UrlSegmentGroup [\<lparr>path = ''chat'', parameters = []\<rparr>] [])])"
    by code_simp
  from C10_children_processing_keeps_segments [THEN conjunct1, rule_format, OF r] r
  show ?thesis by simp
qed



subsection \<open>The prefix matching walk\<close>

lemma prefixedWith_loop_step:
  assumes "0 \<le> i" and "i < int (length segs)" and "j < length cmds"
    and "\<not> isCommandWithOutlets (cmds ! j)"
  shows "prefixedWith_loop segs cmds i j =
     (if to_string (cmds ! j) = path (segs ! nat i) \<and>
         shallowEqual (expected_parameters cmds j) (parameters (segs ! nat i))
      then prefixedWith_loop segs cmds (i + 1) (j + consumed cmds j)
      else Inr noMatch)"
  using assms(1,2)
  by (cases "parameters_object cmds j")
     (simp_all add: prefixedWith_loop_unfold [OF assms(2,3,4)] js_nth_def compare_def
        expected_parameters_def consumed_def)

lemma prefixedWith_loop_undefined_segment:
  assumes "i < 0" and "0 < length segs" and "j < length cmds"
    and "\<not> isCommandWithOutlets (cmds ! j)"
  shows "prefixedWith_loop segs cmds i j = Inl TypeError"
proof -
  from assms(1,2) have "i < int (length segs)" by simp
  from prefixedWith_loop_unfold [OF this assms(3,4)] assms(1) show ?thesis
    by (simp add: js_nth_def compare_def split: option.splits)
qed

lemma consumed_bounds: "1 \<le> consumed cmds j \<and> consumed cmds j \<le> 2"
  by (simp add: consumed_def split: option.splits)

lemma consumed_within: "j < length cmds \<Longrightarrow> j + consumed cmds j \<le> length cmds"
  by (auto simp: consumed_def parameters_object_def next_command_def split: option.splits if_splits)

lemma prefixedWith_loop_short:
  assumes "nat (int (length segs) - i) = n" and "0 \<le> i" and "j \<le> length cmds"
    and "\<forall>c \<in> set cmds. \<not> isCommandWithOutlets c"
    and "int (length cmds) - int j < int (length segs) - i"
  shows "prefixedWith_loop segs cmds i j = Inr noMatch"
  using assms
proof (induction n arbitrary: i j)
  case 0
  then show ?case by simp
next
  case (Suc n)
  from Suc.prems have il: "i < int (length segs)" by simp
  show ?case
  proof (cases "j < length cmds")
    case False
    with il show ?thesis by (simp add: prefixedWith_loop_exhausted)
  next
    case True
    with Suc.prems(4) have no: "\<not> isCommandWithOutlets (cmds ! j)" by simp
    have "prefixedWith_loop segs cmds (i + 1) (j + consumed cmds j) = Inr noMatch"
    proof (rule Suc.IH)
      show "nat (int (length segs) - (i + 1)) = n" using Suc.prems(1) by simp
      show "0 \<le> i + 1" using Suc.prems(2) by simp
      show "j + consumed cmds j \<le> length cmds" using True by (rule consumed_within)
      show "\<forall>c \<in> set cmds. \<not> isCommandWithOutlets c" by (rule Suc.prems(4))
      show "int (length cmds) - int (j + consumed cmds j) < int (length segs) - (i + 1)"
        using Suc.prems(5) consumed_bounds [of cmds j] by simp
    qed
    then show ?thesis
      by (simp add: prefixedWith_loop_step [OF Suc.prems(2) il True no])
  qed
qed

lemma prefixedWith_short:
  assumes "0 \<le> startIndex" and "\<forall>c \<in> set cmds. \<not> isCommandWithOutlets c"
    and "int (length cmds) < int (length (segments sg)) - startIndex"
  shows "prefixedWith sg startIndex cmds = Inr noMatch"
  unfolding prefixedWith_def
  by (rule prefixedWith_loop_short [OF refl assms(1) _ assms(2)]) (use assms(3) in simp_all)

text \<open>
  C4, as amended. The walk of \<^verbatim>\<open>prefixedWith\<close>, at the path index \<open>i\<close> and the command
  index \<open>j\<close> with segments remaining (\<open>i\<close> below the number of segments): it returns
  \<^verbatim>\<open>match=true\<close> with the indices \<open>i\<close> and \<open>j\<close> when the command at \<open>j\<close> is an outlets
  object; \<^verbatim>\<open>match=false\<close> when the commands are exhausted; \<^verbatim>\<open>match=false\<close> when the
  stringified command is not the segment's path or the expected parameters are not
  shallowly equal to the segment's parameters; when the stringified command is not
  empty and the next command is an object without \<^verbatim>\<open>outlets\<close>, that object is the
  expected parameters and a successful step consumes both commands; when the stringified
  command is empty, the expected parameters are empty whatever follows, and a successful
  step consumes that one command. For the whole walk: a command list without outlets
  object that is shorter than the segments remaining gives \<^verbatim>\<open>match=false\<close>, and a match
  that leaves segments over stands at an outlets object.
\<close>

theorem C4_prefix_matching_walk:
  "(\<forall>segs cmds i j.
      i < int (length segs) \<and> j < length cmds \<and> isCommandWithOutlets (cmds ! j) \<longrightarrow>
        prefixedWith_loop segs cmds i j =
          Inr \<lparr>match = True, pathIndex = i, commandIndex = j\<rparr>) \<and>
   (\<forall>segs cmds i j.
      i < int (length segs) \<and> length cmds \<le> j \<longrightarrow>
        prefixedWith_loop segs cmds i j =
          Inr \<lparr>match = False, pathIndex = 0, commandIndex = 0\<rparr>) \<and>
   (\<forall>segs cmds i j.
      0 \<le> i \<and> i < int (length segs) \<and> j < length cmds \<and>
      \<not> isCommandWithOutlets (cmds ! j) \<and>
      \<not> (to_string (cmds ! j) = path (segs ! nat i) \<and>
         shallowEqual (expected_parameters cmds j) (parameters (segs ! nat i))) \<longrightarrow>
        prefixedWith_loop segs cmds i j =
          Inr \<lparr>match = False, pathIndex = 0, commandIndex = 0\<rparr>) \<and>
   (\<forall>segs cmds i j params.
      0 \<le> i \<and> i < int (length segs) \<and> j < length cmds \<and>
      \<not> isCommandWithOutlets (cmds ! j) \<and> to_string (cmds ! j) \<noteq> [] \<and>
      object_without_outlets (next_command cmds j) = Some params \<and>
      to_string (cmds ! j) = path (segs ! nat i) \<and>
      shallowEqual params (parameters (segs ! nat i)) \<longrightarrow>
        expected_parameters cmds j = params \<and>
        prefixedWith_loop segs cmds i j = prefixedWith_loop segs cmds (i + 1) (j + 2)) \<and>
   (\<forall>segs cmds i j.
      0 \<le> i \<and> i < int (length segs) \<and> j < length cmds \<and>
      \<not> isCommandWithOutlets (cmds ! j) \<and> to_string (cmds ! j) = [] \<and>
      path (segs ! nat i) = [] \<and> shallowEqual [] (parameters (segs ! nat i)) \<longrightarrow>
        expected_parameters cmds j = [] \<and>
        prefixedWith_loop segs cmds i j = prefixedWith_loop segs cmds (i + 1) (j + 1)) \<and>
   (\<forall>sg startIndex cmds.
      0 \<le> startIndex \<and> list_all (\<lambda>c. \<not> isCommandWithOutlets c) cmds \<and>
      int (length cmds) < int (length (segments sg)) - startIndex \<longrightarrow>
        prefixedWith sg startIndex cmds =
          Inr \<lparr>match = False, pathIndex = 0, commandIndex = 0\<rparr>) \<and>
   (\<forall>sg startIndex cmds m.
      prefixedWith sg startIndex cmds = Inr m \<and> match m \<and>
      pathIndex m < int (length (segments sg)) \<longrightarrow>
        commandIndex m < length cmds \<and> isCommandWithOutlets (cmds ! commandIndex m)) \<and>
   (\<forall>sg startIndex cmds.
      prefixedWith sg startIndex cmds = prefixedWith_loop (segments sg) cmds startIndex 0)"
proof (intro conjI allI impI)
  fix segs :: "url_segment list" and cmds :: "command list" and i j
  assume "i < int (length segs) \<and> j < length cmds \<and> isCommandWithOutlets (cmds ! j)"
  then show "prefixedWith_loop segs cmds i j =
      Inr \<lparr>match = True, pathIndex = i, commandIndex = j\<rparr>"
    by (simp add: prefixedWith_loop_outlets)
next
  fix segs :: "url_segment list" and cmds :: "command list" and i j
  assume "i < int (length segs) \<and> length cmds \<le> j"
  then show "prefixedWith_loop segs cmds i j =
      Inr \<lparr>match = False, pathIndex = 0, commandIndex = 0\<rparr>"
    by (simp add: prefixedWith_loop_exhausted noMatch_def)
next
  fix segs :: "url_segment list" and cmds :: "command list" and i j
  assume a: "0 \<le> i \<and> i < int (length segs) \<and> j < length cmds \<and>
      \<not> isCommandWithOutlets (cmds ! j) \<and>
      \<not> (to_string (cmds ! j) = path (segs ! nat i) \<and>
         shallowEqual (expected_parameters cmds j) (parameters (segs ! nat i)))"
  then have "prefixedWith_loop segs cmds i j = Inr noMatch"
    using prefixedWith_loop_step [of i segs j cmds] by auto
  then show "prefixedWith_loop segs cmds i j =
      Inr \<lparr>match = False, pathIndex = 0, commandIndex = 0\<rparr>"
    by (simp add: noMatch_def)
next
  fix segs :: "url_segment list" and cmds :: "command list" and i j params
  assume a: "0 \<le> i \<and> i < int (length segs) \<and> j < length cmds \<and>
      \<not> isCommandWithOutlets (cmds ! j) \<and> to_string (cmds ! j) \<noteq> [] \<and>
      object_without_outlets (next_command cmds j) = Some params \<and>
      to_string (cmds ! j) = path (segs ! nat i) \<and>
      shallowEqual params (parameters (segs ! nat i))"
  then have "to_string (cmds ! j) \<noteq> []"
    and "object_without_outlets (next_command cmds j) = Some params"
    by blast+
  then have po: "parameters_object cmds j = Some params"
    by (simp add: parameters_object_def)
  then show "expected_parameters cmds j = params"
    by (simp add: expected_parameters_def)
  from a po show "prefixedWith_loop segs cmds i j = prefixedWith_loop segs cmds (i + 1) (j + 2)"
    using prefixedWith_loop_step [of i segs j cmds]
    by (simp add: expected_parameters_def consumed_def)
next
  fix segs :: "url_segment list" and cmds :: "command list" and i j
  assume a: "0 \<le> i \<and> i < int (length segs) \<and> j < length cmds \<and>
      \<not> isCommandWithOutlets (cmds ! j) \<and> to_string (cmds ! j) = [] \<and>
      path (segs ! nat i) = [] \<and> shallowEqual [] (parameters (segs ! nat i))"
  then have "to_string (cmds ! j) = []" by blast
  then have po: "parameters_object cmds j = None"
    by (simp add: parameters_object_def)
  then show "expected_parameters cmds j = []"
    by (simp add: expected_parameters_def)
  from a po show "prefixedWith_loop segs cmds i j = prefixedWith_loop segs cmds (i + 1) (j + 1)"
    using prefixedWith_loop_step [of i segs j cmds]
    by (simp add: expected_parameters_def consumed_def)
next
  fix sg startIndex cmds
  assume a: "0 \<le> startIndex \<and> list_all (\<lambda>c. \<not> isCommandWithOutlets c) cmds \<and>
      int (length cmds) < int (length (segments sg)) - startIndex"
  then have "prefixedWith sg startIndex cmds = Inr noMatch"
    using prefixedWith_short [of startIndex cmds sg] by (simp add: list_all_iff)
  then show "prefixedWith sg startIndex cmds =
      Inr \<lparr>match = False, pathIndex = 0, commandIndex = 0\<rparr>"
    by (simp add: noMatch_def)
next
  fix sg startIndex cmds m
  assume a: "prefixedWith sg startIndex cmds = Inr m \<and> match m \<and>
      pathIndex m < int (length (segments sg))"
  then have *: "commandIndex m < length cmds \<and> isCommandWithOutlets (cmds ! commandIndex m)"
    using prefixedWith_loop_partial [of "segments sg" startIndex _ cmds 0 m]
    by (simp add: prefixedWith_def)
  from * show "commandIndex m < length cmds" by simp
  from * show "isCommandWithOutlets (cmds ! commandIndex m)" by simp
next
  fix sg startIndex cmds
  show "prefixedWith sg startIndex cmds = prefixedWith_loop (segments sg) cmds startIndex 0"
    by (simp add: prefixedWith_def)
qed

theorem C4_prefix_matching_walk_witness:
  "prefixedWith_loop [\<lparr>path = ''a'', parameters = []\<rparr>, \<lparr>path = ''b'', parameters = [(''k'', ''1'')]\<rparr>] [COutlets [(''right'', OString ''x'')]] 1 0 =
     Inr \<lparr>match = True, pathIndex = 1, commandIndex = 0\<rparr> \<and>
   prefixedWith_loop [\<lparr>path = ''a'', parameters = []\<rparr>, \<lparr>path = ''b'', parameters = [(''k'', ''1'')]\<rparr>] [] 1 0 = Inr \<lparr>match = False, pathIndex = 0, commandIndex = 0\<rparr> \<and>
   prefixedWith_loop [\<lparr>path = ''a'', parameters = []\<rparr>, \<lparr>path = ''b'', parameters = [(''k'', ''1'')]\<rparr>] [CPrim (PStr ''c'')] 1 0 = Inr \<lparr>match = False, pathIndex = 0, commandIndex = 0\<rparr> \<and>
   prefixedWith_loop [\<lparr>path = ''a'', parameters = []\<rparr>, \<lparr>path = ''b'', parameters = [(''k'', ''1'')]\<rparr>] [CPrim (PStr ''b''), CParams [(''k'', PStr ''2'')]] 1 0 = Inr \<lparr>match = False, pathIndex = 0, commandIndex = 0\<rparr> \<and>
   prefixedWith_loop [\<lparr>path = ''a'', parameters = []\<rparr>, \<lparr>path = ''b'', parameters = [(''k'', ''1'')]\<rparr>] [CPrim (PStr ''b''), CParams [(''k'', PStr ''1'')]] 1 0 =
     prefixedWith_loop [\<lparr>path = ''a'', parameters = []\<rparr>, \<lparr>path = ''b'', parameters = [(''k'', ''1'')]\<rparr>] [CPrim (PStr ''b''), CParams [(''k'', PStr ''1'')]] 2 2 \<and>
   prefixedWith_loop [\<lparr>path = ''33'', parameters = [(''k'', ''1'')]\<rparr>] [CPrim (PNum 33), CParams [(''k'', PNum 1)]] 0 0 =
     prefixedWith_loop [\<lparr>path = ''33'', parameters = [(''k'', ''1'')]\<rparr>] [CPrim (PNum 33), CParams [(''k'', PNum 1)]] 1 2 \<and>
   prefixedWith (UrlSegmentGroup [\<lparr>path = ''33'', parameters = [(''k'', ''1'')]\<rparr>] []) 0 [CPrim (PNum 33), CParams [(''k'', PNum 1)]] =
     Inr \<lparr>match = True, pathIndex = 1, commandIndex = 2\<rparr> \<and>
   expected_parameters [CPrim (PStr []), CParams [(''k'', PStr ''1'')]] 0 = [] \<and>
   prefixedWith_loop [\<lparr>path = [], parameters = []\<rparr>] [CPrim (PStr []), CParams [(''k'', PStr ''1'')]] 0 0 =
     prefixedWith_loop [\<lparr>path = [], parameters = []\<rparr>] [CPrim (PStr []), CParams [(''k'', PStr ''1'')]] 1 1 \<and>
   prefixedWith (UrlSegmentGroup [\<lparr>path = [], parameters = []\<rparr>] []) 0 [CPrim (PStr []), CParams [(''k'', PStr ''1'')]] =
     Inr \<lparr>match = True, pathIndex = 1, commandIndex = 1\<rparr> \<and>
   prefixedWith (UrlSegmentGroup [\<lparr>path = ''a'', parameters = []\<rparr>, \<lparr>path = ''b'', parameters = [(''k'', ''1'')]\<rparr>] []) 0 [CPrim (PStr ''a'')] = Inr \<lparr>match = False, pathIndex = 0, commandIndex = 0\<rparr> \<and>
   prefixedWith (UrlSegmentGroup [\<lparr>path = ''a'', parameters = []\<rparr>, \<lparr>path = ''b'', parameters = [(''k'', ''1'')]\<rparr>] []) 0
     [CPrim (PStr ''a''), COutlets [(''right'', OString ''x'')]] =
     Inr \<lparr>match = True, pathIndex = 1, commandIndex = 1\<rparr> \<and>
   isCommandWithOutlets ([CPrim (PStr ''a''), COutlets [(''right'', OString ''x'')]] ! 1)"
proof -
  have h1: "(1::int) < int (length [\<lparr>path = ''a'', parameters = []\<rparr>, \<lparr>path = ''b'', parameters = [(''k'', ''1'')]\<rparr>]) \<and>
      (0::nat) < length [COutlets [(''right'', OString ''x'')]] \<and>
      isCommandWithOutlets ([COutlets [(''right'', OString ''x'')]] ! 0)"
    by simp
  have h2: "(1::int) < int (length [\<lparr>path = ''a'', parameters = []\<rparr>, \<lparr>path = ''b'', parameters = [(''k'', ''1'')]\<rparr>]) \<and> length ([] :: command list) \<le> (0::nat)"
    by simp
  have h3: "(0::int) \<le> 1 \<and> (1::int) < int (length [\<lparr>path = ''a'', parameters = []\<rparr>, \<lparr>path = ''b'', parameters = [(''k'', ''1'')]\<rparr>]) \<and>
      (0::nat) < length [CPrim (PStr ''c'')] \<and>
      \<not> isCommandWithOutlets ([CPrim (PStr ''c'')] ! 0) \<and>
      \<not> (to_string ([CPrim (PStr ''c'')] ! 0) = path ([\<lparr>path = ''a'', parameters = []\<rparr>, \<lparr>path = ''b'', parameters = [(''k'', ''1'')]\<rparr>] ! nat 1) \<and>
         shallowEqual (expected_parameters [CPrim (PStr ''c'')] 0)
           (parameters ([\<lparr>path = ''a'', parameters = []\<rparr>, \<lparr>path = ''b'', parameters = [(''k'', ''1'')]\<rparr>] ! nat 1)))"
    by simp
  have h3': "(0::int) \<le> 1 \<and> (1::int) < int (length [\<lparr>path = ''a'', parameters = []\<rparr>, \<lparr>path = ''b'', parameters = [(''k'', ''1'')]\<rparr>]) \<and>
      (0::nat) < length [CPrim (PStr ''b''), CParams [(''k'', PStr ''2'')]] \<and>
      \<not> isCommandWithOutlets ([CPrim (PStr ''b''), CParams [(''k'', PStr ''2'')]] ! 0) \<and>
      \<not> (to_string ([CPrim (PStr ''b''), CParams [(''k'', PStr ''2'')]] ! 0) =
           path ([\<lparr>path = ''a'', parameters = []\<rparr>, \<lparr>path = ''b'', parameters = [(''k'', ''1'')]\<rparr>] ! nat 1) \<and>
         shallowEqual
           (expected_parameters [CPrim (PStr ''b''), CParams [(''k'', PStr ''2'')]] 0)
           (parameters ([\<lparr>path = ''a'', parameters = []\<rparr>, \<lparr>path = ''b'', parameters = [(''k'', ''1'')]\<rparr>] ! nat 1)))"
    by (simp add: expected_parameters_def parameters_object_def next_command_def
          shallowEqual_def)
  have h4: "(0::int) \<le> 1 \<and> (1::int) < int (length [\<lparr>path = ''a'', parameters = []\<rparr>, \<lparr>path = ''b'', parameters = [(''k'', ''1'')]\<rparr>]) \<and>
      (0::nat) < length [CPrim (PStr ''b''), CParams [(''k'', PStr ''1'')]] \<and>
      \<not> isCommandWithOutlets ([CPrim (PStr ''b''), CParams [(''k'', PStr ''1'')]] ! 0) \<and>
      to_string ([CPrim (PStr ''b''), CParams [(''k'', PStr ''1'')]] ! 0) \<noteq> [] \<and>
      object_without_outlets
        (next_command [CPrim (PStr ''b''), CParams [(''k'', PStr ''1'')]] 0) =
        Some [(''k'', PStr ''1'')] \<and>
      to_string ([CPrim (PStr ''b''), CParams [(''k'', PStr ''1'')]] ! 0) = path ([\<lparr>path = ''a'', parameters = []\<rparr>, \<lparr>path = ''b'', parameters = [(''k'', ''1'')]\<rparr>] ! nat 1) \<and>
      shallowEqual [(''k'', PStr ''1'')] (parameters ([\<lparr>path = ''a'', parameters = []\<rparr>, \<lparr>path = ''b'', parameters = [(''k'', ''1'')]\<rparr>] ! nat 1))"
    by (simp add: next_command_def shallowEqual_def)
  have h4n: "(0::int) \<le> 0 \<and> (0::int) < int (length [\<lparr>path = ''33'', parameters = [(''k'', ''1'')]\<rparr>]) \<and>
      (0::nat) < length [CPrim (PNum 33), CParams [(''k'', PNum 1)]] \<and>
      \<not> isCommandWithOutlets ([CPrim (PNum 33), CParams [(''k'', PNum 1)]] ! 0) \<and>
      to_string ([CPrim (PNum 33), CParams [(''k'', PNum 1)]] ! 0) \<noteq> [] \<and>
      object_without_outlets (next_command [CPrim (PNum 33), CParams [(''k'', PNum 1)]] 0) = Some [(''k'', PNum 1)] \<and>
      to_string ([CPrim (PNum 33), CParams [(''k'', PNum 1)]] ! 0) = path ([\<lparr>path = ''33'', parameters = [(''k'', ''1'')]\<rparr>] ! nat 0) \<and>
      shallowEqual [(''k'', PNum 1)] (parameters ([\<lparr>path = ''33'', parameters = [(''k'', ''1'')]\<rparr>] ! nat 0))"
    by code_simp
  have r4n: "prefixedWith (UrlSegmentGroup [\<lparr>path = ''33'', parameters = [(''k'', ''1'')]\<rparr>] []) 0 [CPrim (PNum 33), CParams [(''k'', PNum 1)]] =
     Inr \<lparr>match = True, pathIndex = 1, commandIndex = 2\<rparr>"
    by code_simp
  have h4e: "(0::int) \<le> 0 \<and> (0::int) < int (length [\<lparr>path = [], parameters = []\<rparr>]) \<and>
      (0::nat) < length [CPrim (PStr []), CParams [(''k'', PStr ''1'')]] \<and>
      \<not> isCommandWithOutlets ([CPrim (PStr []), CParams [(''k'', PStr ''1'')]] ! 0) \<and>
      to_string ([CPrim (PStr []), CParams [(''k'', PStr ''1'')]] ! 0) = [] \<and>
      path ([\<lparr>path = [], parameters = []\<rparr>] ! nat 0) = [] \<and> shallowEqual [] (parameters ([\<lparr>path = [], parameters = []\<rparr>] ! nat 0))"
    by (simp add: shallowEqual_def)
  have r4e: "prefixedWith (UrlSegmentGroup [\<lparr>path = [], parameters = []\<rparr>] []) 0 [CPrim (PStr []), CParams [(''k'', PStr ''1'')]] =
     Inr \<lparr>match = True, pathIndex = 1, commandIndex = 1\<rparr>"
    by code_simp
  have h5: "(0::int) \<le> 0 \<and> list_all (\<lambda>c. \<not> isCommandWithOutlets c) [CPrim (PStr ''a'')] \<and>
      int (length [CPrim (PStr ''a'')]) < int (length (segments (UrlSegmentGroup [\<lparr>path = ''a'', parameters = []\<rparr>, \<lparr>path = ''b'', parameters = [(''k'', ''1'')]\<rparr>] []))) - 0"
    by simp
  have r6: "prefixedWith (UrlSegmentGroup [\<lparr>path = ''a'', parameters = []\<rparr>, \<lparr>path = ''b'', parameters = [(''k'', ''1'')]\<rparr>] []) 0
     [CPrim (PStr ''a''), COutlets [(''right'', OString ''x'')]] =
     Inr \<lparr>match = True, pathIndex = 1, commandIndex = 1\<rparr>"
    by code_simp
  have h6: "prefixedWith (UrlSegmentGroup [\<lparr>path = ''a'', parameters = []\<rparr>, \<lparr>path = ''b'', parameters = [(''k'', ''1'')]\<rparr>] []) 0
     [CPrim (PStr ''a''), COutlets [(''right'', OString ''x'')]] =
     Inr \<lparr>match = True, pathIndex = 1, commandIndex = 1\<rparr> \<and>
     match \<lparr>match = True, pathIndex = 1, commandIndex = 1\<rparr> \<and>
     pathIndex \<lparr>match = True, pathIndex = 1, commandIndex = 1\<rparr>
       < int (length (segments (UrlSegmentGroup [\<lparr>path = ''a'', parameters = []\<rparr>, \<lparr>path = ''b'', parameters = [(''k'', ''1'')]\<rparr>] [])))"
    using r6 by simp
  note t = C4_prefix_matching_walk
  from t [THEN conjunct1, rule_format, OF h1]
    t [THEN conjunct2, THEN conjunct1, rule_format, OF h2]
    t [THEN conjunct2, THEN conjunct2, THEN conjunct1, rule_format, OF h3]
    t [THEN conjunct2, THEN conjunct2, THEN conjunct1, rule_format, OF h3']
    t [THEN conjunct2, THEN conjunct2, THEN conjunct2, THEN conjunct1, rule_format, OF h4]
    t [THEN conjunct2, THEN conjunct2, THEN conjunct2, THEN conjunct1, rule_format, OF h4n]
    t [THEN conjunct2, THEN conjunct2, THEN conjunct2, THEN conjunct2, THEN conjunct1,
       rule_format, OF h4e]
    t [THEN conjunct2, THEN conjunct2, THEN conjunct2, THEN conjunct2, THEN conjunct2,
       THEN conjunct1, rule_format, OF h5]
    t [THEN conjunct2, THEN conjunct2, THEN conjunct2, THEN conjunct2, THEN conjunct2,
       THEN conjunct2, THEN conjunct1, rule_format, OF h6]
    r6 r4n r4e
  show ?thesis by (simp add: numeral_2_eq_2)
qed

text \<open>
  C4 as stated fails at the path command \<^verbatim>\<open>''\<close> followed by \<^verbatim>\<open>{k: '1'}\<close>: the object is
  a plain object without \<^verbatim>\<open>outlets\<close> right after a path command, and yet it is not the
  expected parameters of the segment. Against the segment with the empty path and the
  parameters \<^verbatim>\<open>{k: '1'}\<close>, path and object agree with the segment and the walk returns
  \<^verbatim>\<open>match=false\<close>; against the segment with the empty path and no parameters the walk
  matches and leaves the object unconsumed.
\<close>

theorem C4_empty_path_command_not_paired:
  "\<not> isCommandWithOutlets ([CPrim (PStr []), CParams [(''k'', PStr ''1'')]] ! 0) \<and>
   object_without_outlets (next_command [CPrim (PStr []), CParams [(''k'', PStr ''1'')]] 0) = Some [(''k'', PStr ''1'')] \<and>
   to_string ([CPrim (PStr []), CParams [(''k'', PStr ''1'')]] ! 0) = path ([\<lparr>path = [], parameters = [(''k'', ''1'')]\<rparr>] ! 0) \<and>
   shallowEqual [(''k'', PStr ''1'')] (parameters ([\<lparr>path = [], parameters = [(''k'', ''1'')]\<rparr>] ! 0)) \<and>
   expected_parameters [CPrim (PStr []), CParams [(''k'', PStr ''1'')]] 0 = [] \<and>
   prefixedWith (UrlSegmentGroup [\<lparr>path = [], parameters = [(''k'', ''1'')]\<rparr>] []) 0 [CPrim (PStr []), CParams [(''k'', PStr ''1'')]] =
     Inr \<lparr>match = False, pathIndex = 0, commandIndex = 0\<rparr> \<and>
   prefixedWith (UrlSegmentGroup [\<lparr>path = [], parameters = []\<rparr>] []) 0 [CPrim (PStr []), CParams [(''k'', PStr ''1'')]] =
     Inr \<lparr>match = True, pathIndex = 1, commandIndex = 1\<rparr>"
  by code_simp

subsection \<open>Squashing\<close>

lemma no_bare_level_squash: "no_bare_level (squash_below_root g)"
proof (induction g rule: squash_below_root.induct)
  case (1 segs chs)
  let ?chs = "map (\<lambda>kc. (fst kc, squash_below_root (snd kc))) chs"
  have all: "list_all (\<lambda>kc. no_bare_level (snd kc)) ?chs"
    using "1.IH" by (simp add: list_all_iff)
  show ?case
  proof (cases ?chs)
    case Nil
    then show ?thesis by simp
  next
    case (Cons kc rest)
    obtain outlet child where kc: "kc = (outlet, child)" by (cases kc)
    show ?thesis
    proof (cases rest)
      case Nil
      from all Cons Nil kc have "no_bare_level child" by simp
      with Cons Nil kc show ?thesis by simp
    next
      case c: (Cons kc' rest')
      from Cons c have sq: "squash_below_root (UrlSegmentGroup segs chs) = UrlSegmentGroup segs ?chs"
        by (simp add: kc)
      from Cons c have "length ?chs \<noteq> 1" by simp
      with all show ?thesis unfolding sq by simp
    qed
  qed
qed

lemma squashed_squashSegmentGroup: "squashed (squashSegmentGroup g)"
  by (simp add: squashed_def squashSegmentGroup_def list_all_iff no_bare_level_squash)

lemma squash_below_root_id: "no_bare_level g \<Longrightarrow> squash_below_root g = g"
proof (induction g rule: squash_below_root.induct)
  case (1 segs chs)
  from "1.prems" have all: "\<forall>kc \<in> set chs. no_bare_level (snd kc)"
    and ne: "\<not> (segs = [] \<and> length chs = 1)"
    by (simp_all add: list_all_iff)
  have m: "map (\<lambda>kc. (fst kc, squash_below_root (snd kc))) chs = chs"
    using "1.IH" all by (simp add: map_idI)
  show ?case
    using ne by (auto simp: m split: list.splits)
qed

lemma squashSegmentGroup_id: "squashed g \<Longrightarrow> squashSegmentGroup g = g"
proof -
  assume "squashed g"
  then have "map (\<lambda>kc. (fst kc, squash_below_root (snd kc))) (children g) = children g"
    by (simp add: squashed_def list_all_iff squash_below_root_id map_idI)
  then show ?thesis by (simp add: squashSegmentGroup_def)
qed

lemma root_tree:
  "root (tree oldRoot oldSegmentGroup newSegmentGroup qps frag) =
     createRoot (squashSegmentGroup
       (if oldSegmentGroup = [] then newSegmentGroup
        else replaceSegment oldRoot [] oldSegmentGroup newSegmentGroup))"
  by (simp add: tree_def Let_def)

lemma squashed_tree: "squashed (root (tree oldRoot oldSegmentGroup newSegmentGroup qps frag))"
  by (simp add: root_tree createRoot_def squashed_squashSegmentGroup)

lemma createUrlTreeFromSegmentGroup_is_tree:
  "createUrlTreeFromSegmentGroup anchor cmds qps frag = Inr t \<Longrightarrow>
   \<exists>oldSegmentGroup newSegmentGroup. t = tree (root_of anchor) oldSegmentGroup newSegmentGroup qps frag"
  by (auto simp: createUrlTreeFromSegmentGroup_def Let_def split: if_splits sum.splits)

lemma createUrlTree_is_tree:
  "createUrlTree anchor lastPathIndex cmds qps frag = Inr t \<Longrightarrow>
   \<exists>oldSegmentGroup newSegmentGroup. t = tree (root_of anchor) oldSegmentGroup newSegmentGroup qps frag"
  by (auto simp: createUrlTree_def Let_def split: if_splits sum.splits)

text \<open>
  C5. Every tree \<^verbatim>\<open>tree\<close> builds, and so every tree an entry point returns, is squashed:
  no group other than the root has an empty segment list together with exactly one
  child.
\<close>

theorem C5_returned_trees_are_squashed:
  "squashed (root (tree oldRoot oldSegmentGroup newSegmentGroup qps frag)) \<and>
   (\<forall>anchor cmds t.
      createUrlTreeFromSegmentGroup anchor cmds qps frag = Inr t \<longrightarrow> squashed (root t)) \<and>
   (\<forall>anchor lastPathIndex cmds t.
      createUrlTree anchor lastPathIndex cmds qps frag = Inr t \<longrightarrow> squashed (root t))"
  using createUrlTreeFromSegmentGroup_is_tree createUrlTree_is_tree squashed_tree
  by metis

theorem C5_returned_trees_are_squashed_witness:
  "createUrlTreeFromSegmentGroup
     (UrlSegmentGroup [\<lparr>path = ''a'', parameters = []\<rparr>] [],
      [Crumb [] [] ''x'' [], Crumb [] [] ''primary'' []])
     [CPrim (PStr ''b'')] None None =
     Inr \<lparr>root = UrlSegmentGroup [] [(''primary'', UrlSegmentGroup [\<lparr>path = ''a'', parameters = []\<rparr>, \<lparr>path = ''b'', parameters = []\<rparr>] [])],
          queryParams = [], fragment = None\<rparr> \<and>
   squashed (UrlSegmentGroup [] [(''primary'', UrlSegmentGroup [\<lparr>path = ''a'', parameters = []\<rparr>, \<lparr>path = ''b'', parameters = []\<rparr>] [])]) \<and>
   createUrlTree
     (UrlSegmentGroup [\<lparr>path = ''a'', parameters = []\<rparr>] [],
      [Crumb [] [] ''x'' [], Crumb [] [] ''primary'' []])
     0 [CPrim (PStr ''b'')] None None =
     Inr \<lparr>root = UrlSegmentGroup [] [(''primary'', UrlSegmentGroup [\<lparr>path = ''a'', parameters = []\<rparr>, \<lparr>path = ''b'', parameters = []\<rparr>] [])],
          queryParams = [], fragment = None\<rparr>"
proof -
  have r1: "createUrlTreeFromSegmentGroup
     (UrlSegmentGroup [\<lparr>path = ''a'', parameters = []\<rparr>] [],
      [Crumb [] [] ''x'' [], Crumb [] [] ''primary'' []])
     [CPrim (PStr ''b'')] None None =
     Inr \<lparr>root = UrlSegmentGroup [] [(''primary'', UrlSegmentGroup [\<lparr>path = ''a'', parameters = []\<rparr>, \<lparr>path = ''b'', parameters = []\<rparr>] [])],
          queryParams = [], fragment = None\<rparr>"
    by code_simp
  have r2: "createUrlTree
     (UrlSegmentGroup [\<lparr>path = ''a'', parameters = []\<rparr>] [],
      [Crumb [] [] ''x'' [], Crumb [] [] ''primary'' []])
     0 [CPrim (PStr ''b'')] None None =
     Inr \<lparr>root = UrlSegmentGroup [] [(''primary'', UrlSegmentGroup [\<lparr>path = ''a'', parameters = []\<rparr>, \<lparr>path = ''b'', parameters = []\<rparr>] [])],
          queryParams = [], fragment = None\<rparr>"
    by code_simp
  from C5_returned_trees_are_squashed [THEN conjunct2, THEN conjunct1, rule_format, OF r1]
    C5_returned_trees_are_squashed [THEN conjunct2, THEN conjunct2, rule_format, OF r2]
    r1 r2
  show ?thesis by simp
qed

subsection \<open>Absolute navigation\<close>

lemma Navigation_Inr:
  "Navigation isAbs ndd cs = Inr nav \<Longrightarrow>
   isAbsolute nav = isAbs \<and> numberOfDoubleDots nav = ndd \<and> commands nav = cs"
  by (auto simp: Navigation_def split: if_splits option.splits)

lemma hd_split_slash: "(hd (split_slash s) = []) = (s = [] \<or> hd s = CHR ''/'')"
  by (cases s) (auto split: list.splits)

lemma classify_commands_absolute:
  "fst (snd (classify_commands cmds)) =
     (case cmds of CPrim (PStr s) # rest \<Rightarrow> s = [] \<or> hd s = CHR ''/'' | _ \<Rightarrow> False)"
  by (cases cmds rule: classify_commands.cases) (simp_all add: hd_split_slash)

lemma computeNavigation_isAbsolute:
  assumes "computeNavigation cmds = Inr nav"
  shows "isAbsolute nav =
     (case cmds of CPrim (PStr s) # rest \<Rightarrow> s = [] \<or> hd s = CHR ''/'' | _ \<Rightarrow> False)"
proof (cases "cmds = [CPrim (PStr ''/'')]")
  case True
  with assms Navigation_Inr [of True 0 "[CPrim (PStr ''/'')]" nav] show ?thesis
    by (simp add: computeNavigation_def)
next
  case False
  obtain res isAbs ndd where c: "classify_commands cmds = (res, isAbs, ndd)"
    by (cases "classify_commands cmds")
  from assms [unfolded computeNavigation_classify [OF False] c]
  have "Navigation isAbs ndd res = Inr nav" by simp
  from Navigation_Inr [OF this] have "isAbsolute nav = isAbs" by simp
  with classify_commands_absolute [of cmds] c show ?thesis by simp
qed

lemma findStartingPositionForTargetGroup_absolute:
  "isAbsolute nav \<Longrightarrow>
   findStartingPositionForTargetGroup nav rt target =
     Inr \<lparr>segmentGroup = (rt, []), processChildren = True, index = 0\<rparr>"
  by (simp add: findStartingPositionForTargetGroup_def)

lemma createUrlTreeFromSegmentGroup_absolute:
  assumes "computeNavigation cmds = Inr nav" and "isAbsolute nav"
  shows "createUrlTreeFromSegmentGroup anchor cmds qps frag =
     (if length cmds = 0 then Inr (tree (root_of anchor) [] (root_of anchor) qps frag)
      else if toRoot nav then Inr (tree (root_of anchor) [] (UrlSegmentGroup [] []) qps frag)
      else (case updateSegmentGroupChildren (root_of anchor) 0 (commands nav) of
              Inl e \<Rightarrow> Inl e
            | Inr newSegmentGroup \<Rightarrow>
                Inr (tree (root_of anchor) [] newSegmentGroup qps frag)))"
  using assms
  by (simp add: createUrlTreeFromSegmentGroup_def Let_def
        findStartingPositionForTargetGroup_absolute update_at_position_def path_of_def
        cong: sum.case_cong)

lemma createUrlTreeFromSegmentGroup_raises:
  "computeNavigation cmds = Inl e \<Longrightarrow> cmds \<noteq> [] \<Longrightarrow>
   createUrlTreeFromSegmentGroup anchor cmds qps frag = Inl e"
  by (simp add: createUrlTreeFromSegmentGroup_def Let_def)

text \<open>
  C9. A command list is absolute when \<^verbatim>\<open>computeNavigation\<close> sets \<^verbatim>\<open>isAbsolute\<close> for it,
  which it does exactly when the first command is a string that is empty or starts with
  a slash. For two anchors of one tree (their roots are equal) and every absolute command
  list, \<^verbatim>\<open>createUrlTreeFromSegmentGroup\<close> gives the same outcome from either anchor,
  with the same query parameters and fragment: the same tree, or the same exception when
  the commands are rejected.
\<close>

theorem C9_absolute_navigation_anchor_independent:
  "(root_of anchorA = root_of anchorB \<and> computeNavigation cmds = Inr nav \<and>
    isAbsolute nav \<longrightarrow>
      createUrlTreeFromSegmentGroup anchorA cmds qps frag =
      createUrlTreeFromSegmentGroup anchorB cmds qps frag) \<and>
   (root_of anchorA = root_of anchorB \<and> (s = [] \<or> hd s = CHR ''/'') \<longrightarrow>
      createUrlTreeFromSegmentGroup anchorA (CPrim (PStr s) # rest) qps frag =
      createUrlTreeFromSegmentGroup anchorB (CPrim (PStr s) # rest) qps frag) \<and>
   (computeNavigation cmds = Inr nav \<longrightarrow>
      isAbsolute nav =
        (case cmds of CPrim (PStr s) # rest \<Rightarrow> s = [] \<or> hd s = CHR ''/'' | _ \<Rightarrow> False))"
proof (intro conjI impI)
  assume "root_of anchorA = root_of anchorB \<and> computeNavigation cmds = Inr nav \<and>
      isAbsolute nav"
  then have same: "root_of anchorA = root_of anchorB"
    and nav: "computeNavigation cmds = Inr nav" and ab: "isAbsolute nav"
    by blast+
  show "createUrlTreeFromSegmentGroup anchorA cmds qps frag =
      createUrlTreeFromSegmentGroup anchorB cmds qps frag"
    unfolding createUrlTreeFromSegmentGroup_absolute [OF nav ab] same by (rule refl)
next
  assume "root_of anchorA = root_of anchorB \<and> (s = [] \<or> hd s = CHR ''/'')"
  then have same: "root_of anchorA = root_of anchorB" and s: "s = [] \<or> hd s = CHR ''/''"
    by blast+
  show "createUrlTreeFromSegmentGroup anchorA (CPrim (PStr s) # rest) qps frag =
      createUrlTreeFromSegmentGroup anchorB (CPrim (PStr s) # rest) qps frag"
  proof (cases "computeNavigation (CPrim (PStr s) # rest)")
    case (Inl e)
    then show ?thesis by (simp add: createUrlTreeFromSegmentGroup_raises)
  next
    case (Inr nav')
    from computeNavigation_isAbsolute [OF Inr] s have ab: "isAbsolute nav'" by simp
    show ?thesis
      unfolding createUrlTreeFromSegmentGroup_absolute [OF Inr ab] same by (rule refl)
  qed
next
  assume "computeNavigation cmds = Inr nav"
  then show "isAbsolute nav =
        (case cmds of CPrim (PStr s) # rest \<Rightarrow> s = [] \<or> hd s = CHR ''/'' | _ \<Rightarrow> False)"
    by (rule computeNavigation_isAbsolute)
qed

theorem C9_absolute_navigation_anchor_independent_witness:
  "root_of
     ((UrlSegmentGroup [\<lparr>path = ''team'', parameters = []\<rparr>, \<lparr>path = ''33'', parameters = []\<rparr>]
        [(''primary'', UrlSegmentGroup [\<lparr>path = ''user'', parameters = []\<rparr>, \<lparr>path = ''11'', parameters = []\<rparr>] []),
         (''right'', UrlSegmentGroup [\<lparr>path = ''chat'', parameters = []\<rparr>] [])]),
      [Crumb [] [] ''primary'' []]) =
   root_of
     ((UrlSegmentGroup [] [(''primary'',
        (UrlSegmentGroup [\<lparr>path = ''team'', parameters = []\<rparr>, \<lparr>path = ''33'', parameters = []\<rparr>]
          [(''primary'', UrlSegmentGroup [\<lparr>path = ''user'', parameters = []\<rparr>, \<lparr>path = ''11'', parameters = []\<rparr>] []),
           (''right'', UrlSegmentGroup [\<lparr>path = ''chat'', parameters = []\<rparr>] [])]))]), []) \<and>
   computeNavigation [CPrim (PStr ''/x'')] =
     Inr \<lparr>isAbsolute = True, numberOfDoubleDots = 0, commands = [CPrim (PStr ''x'')]\<rparr> \<and>
   createUrlTreeFromSegmentGroup
     ((UrlSegmentGroup [\<lparr>path = ''team'', parameters = []\<rparr>, \<lparr>path = ''33'', parameters = []\<rparr>]
        [(''primary'', UrlSegmentGroup [\<lparr>path = ''user'', parameters = []\<rparr>, \<lparr>path = ''11'', parameters = []\<rparr>] []),
         (''right'', UrlSegmentGroup [\<lparr>path = ''chat'', parameters = []\<rparr>] [])]),
      [Crumb [] [] ''primary'' []])
     [CPrim (PStr ''/x'')] None None =
   createUrlTreeFromSegmentGroup
     ((UrlSegmentGroup [] [(''primary'',
        (UrlSegmentGroup [\<lparr>path = ''team'', parameters = []\<rparr>, \<lparr>path = ''33'', parameters = []\<rparr>]
          [(''primary'', UrlSegmentGroup [\<lparr>path = ''user'', parameters = []\<rparr>, \<lparr>path = ''11'', parameters = []\<rparr>] []),
           (''right'', UrlSegmentGroup [\<lparr>path = ''chat'', parameters = []\<rparr>] [])]))]), [])
     [CPrim (PStr ''/x'')] None None \<and>
   createUrlTreeFromSegmentGroup
     ((UrlSegmentGroup [\<lparr>path = ''team'', parameters = []\<rparr>, \<lparr>path = ''33'', parameters = []\<rparr>]
        [(''primary'', UrlSegmentGroup [\<lparr>path = ''user'', parameters = []\<rparr>, \<lparr>path = ''11'', parameters = []\<rparr>] []),
         (''right'', UrlSegmentGroup [\<lparr>path = ''chat'', parameters = []\<rparr>] [])]),
      [Crumb [] [] ''primary'' []])
     [CPrim (PStr ''/x'')] None None =
   Inr \<lparr>root = (UrlSegmentGroup []
          [(''primary'', UrlSegmentGroup [\<lparr>path = ''x'', parameters = []\<rparr>] [])]),
        queryParams = [], fragment = None\<rparr> \<and>
   computeNavigation [CPrim (PStr []), CPrim (PStr ''x'')] =
     Inr \<lparr>isAbsolute = True, numberOfDoubleDots = 0, commands = [CPrim (PStr ''x'')]\<rparr> \<and>
   createUrlTreeFromSegmentGroup
     ((UrlSegmentGroup [\<lparr>path = ''team'', parameters = []\<rparr>, \<lparr>path = ''33'', parameters = []\<rparr>]
        [(''primary'', UrlSegmentGroup [\<lparr>path = ''user'', parameters = []\<rparr>, \<lparr>path = ''11'', parameters = []\<rparr>] []),
         (''right'', UrlSegmentGroup [\<lparr>path = ''chat'', parameters = []\<rparr>] [])]),
      [Crumb [] [] ''primary'' []])
     [CPrim (PStr []), CPrim (PStr ''x'')] None None =
   createUrlTreeFromSegmentGroup
     ((UrlSegmentGroup [] [(''primary'',
        (UrlSegmentGroup [\<lparr>path = ''team'', parameters = []\<rparr>, \<lparr>path = ''33'', parameters = []\<rparr>]
          [(''primary'', UrlSegmentGroup [\<lparr>path = ''user'', parameters = []\<rparr>, \<lparr>path = ''11'', parameters = []\<rparr>] []),
           (''right'', UrlSegmentGroup [\<lparr>path = ''chat'', parameters = []\<rparr>] [])]))]), [])
     [CPrim (PStr []), CPrim (PStr ''x'')] None None \<and>
   createUrlTreeFromSegmentGroup
     ((UrlSegmentGroup [\<lparr>path = ''team'', parameters = []\<rparr>, \<lparr>path = ''33'', parameters = []\<rparr>]
        [(''primary'', UrlSegmentGroup [\<lparr>path = ''user'', parameters = []\<rparr>, \<lparr>path = ''11'', parameters = []\<rparr>] []),
         (''right'', UrlSegmentGroup [\<lparr>path = ''chat'', parameters = []\<rparr>] [])]),
      [Crumb [] [] ''primary'' []])
     [CPrim (PStr []), CPrim (PStr ''x'')] None None =
   Inr \<lparr>root = (UrlSegmentGroup []
          [(''primary'', UrlSegmentGroup [\<lparr>path = ''x'', parameters = []\<rparr>] [])]),
        queryParams = [], fragment = None\<rparr>"
proof -
  have same: "root_of
     ((UrlSegmentGroup [\<lparr>path = ''team'', parameters = []\<rparr>, \<lparr>path = ''33'', parameters = []\<rparr>]
        [(''primary'', UrlSegmentGroup [\<lparr>path = ''user'', parameters = []\<rparr>, \<lparr>path = ''11'', parameters = []\<rparr>] []),
         (''right'', UrlSegmentGroup [\<lparr>path = ''chat'', parameters = []\<rparr>] [])]),
      [Crumb [] [] ''primary'' []]) =
   root_of
     ((UrlSegmentGroup [] [(''primary'',
        (UrlSegmentGroup [\<lparr>path = ''team'', parameters = []\<rparr>, \<lparr>path = ''33'', parameters = []\<rparr>]
          [(''primary'', UrlSegmentGroup [\<lparr>path = ''user'', parameters = []\<rparr>, \<lparr>path = ''11'', parameters = []\<rparr>] []),
           (''right'', UrlSegmentGroup [\<lparr>path = ''chat'', parameters = []\<rparr>] [])]))]), [])"
    by (simp add: plug_def)
  have nav1: "computeNavigation [CPrim (PStr ''/x'')] =
     Inr \<lparr>isAbsolute = True, numberOfDoubleDots = 0, commands = [CPrim (PStr ''x'')]\<rparr>"
    by code_simp
  have nav2: "computeNavigation [CPrim (PStr []), CPrim (PStr ''x'')] =
     Inr \<lparr>isAbsolute = True, numberOfDoubleDots = 0, commands = [CPrim (PStr ''x'')]\<rparr>"
    by code_simp
  have val1: "createUrlTreeFromSegmentGroup
     ((UrlSegmentGroup [\<lparr>path = ''team'', parameters = []\<rparr>, \<lparr>path = ''33'', parameters = []\<rparr>]
        [(''primary'', UrlSegmentGroup [\<lparr>path = ''user'', parameters = []\<rparr>, \<lparr>path = ''11'', parameters = []\<rparr>] []),
         (''right'', UrlSegmentGroup [\<lparr>path = ''chat'', parameters = []\<rparr>] [])]),
      [Crumb [] [] ''primary'' []])
     [CPrim (PStr ''/x'')] None None =
   Inr \<lparr>root = (UrlSegmentGroup []
          [(''primary'', UrlSegmentGroup [\<lparr>path = ''x'', parameters = []\<rparr>] [])]),
        queryParams = [], fragment = None\<rparr>"
    by code_simp
  have val2: "createUrlTreeFromSegmentGroup
     ((UrlSegmentGroup [\<lparr>path = ''team'', parameters = []\<rparr>, \<lparr>path = ''33'', parameters = []\<rparr>]
        [(''primary'', UrlSegmentGroup [\<lparr>path = ''user'', parameters = []\<rparr>, \<lparr>path = ''11'', parameters = []\<rparr>] []),
         (''right'', UrlSegmentGroup [\<lparr>path = ''chat'', parameters = []\<rparr>] [])]),
      [Crumb [] [] ''primary'' []])
     [CPrim (PStr []), CPrim (PStr ''x'')] None None =
   Inr \<lparr>root = (UrlSegmentGroup []
          [(''primary'', UrlSegmentGroup [\<lparr>path = ''x'', parameters = []\<rparr>] [])]),
        queryParams = [], fragment = None\<rparr>"
    by code_simp
  note t = C9_absolute_navigation_anchor_independent
  have h1: "root_of
     ((UrlSegmentGroup [\<lparr>path = ''team'', parameters = []\<rparr>, \<lparr>path = ''33'', parameters = []\<rparr>]
        [(''primary'', UrlSegmentGroup [\<lparr>path = ''user'', parameters = []\<rparr>, \<lparr>path = ''11'', parameters = []\<rparr>] []),
         (''right'', UrlSegmentGroup [\<lparr>path = ''chat'', parameters = []\<rparr>] [])]),
      [Crumb [] [] ''primary'' []]) =
   root_of
     ((UrlSegmentGroup [] [(''primary'',
        (UrlSegmentGroup [\<lparr>path = ''team'', parameters = []\<rparr>, \<lparr>path = ''33'', parameters = []\<rparr>]
          [(''primary'', UrlSegmentGroup [\<lparr>path = ''user'', parameters = []\<rparr>, \<lparr>path = ''11'', parameters = []\<rparr>] []),
           (''right'', UrlSegmentGroup [\<lparr>path = ''chat'', parameters = []\<rparr>] [])]))]), []) \<and>
     computeNavigation [CPrim (PStr ''/x'')] =
       Inr \<lparr>isAbsolute = True, numberOfDoubleDots = 0, commands = [CPrim (PStr ''x'')]\<rparr> \<and>
     isAbsolute \<lparr>isAbsolute = True, numberOfDoubleDots = 0, commands = [CPrim (PStr ''x'')]\<rparr>"
    using same nav1 by simp
  have h2: "root_of
     ((UrlSegmentGroup [\<lparr>path = ''team'', parameters = []\<rparr>, \<lparr>path = ''33'', parameters = []\<rparr>]
        [(''primary'', UrlSegmentGroup [\<lparr>path = ''user'', parameters = []\<rparr>, \<lparr>path = ''11'', parameters = []\<rparr>] []),
         (''right'', UrlSegmentGroup [\<lparr>path = ''chat'', parameters = []\<rparr>] [])]),
      [Crumb [] [] ''primary'' []]) =
   root_of
     ((UrlSegmentGroup [] [(''primary'',
        (UrlSegmentGroup [\<lparr>path = ''team'', parameters = []\<rparr>, \<lparr>path = ''33'', parameters = []\<rparr>]
          [(''primary'', UrlSegmentGroup [\<lparr>path = ''user'', parameters = []\<rparr>, \<lparr>path = ''11'', parameters = []\<rparr>] []),
           (''right'', UrlSegmentGroup [\<lparr>path = ''chat'', parameters = []\<rparr>] [])]))]), []) \<and>
     (([] :: string) = [] \<or> hd ([] :: string) = CHR ''/'')"
    using same by simp
  from t [THEN conjunct1, rule_format, OF h1]
    t [THEN conjunct2, THEN conjunct1, rule_format, OF h2, of "[CPrim (PStr ''x'')]" None None]
    t [THEN conjunct2, THEN conjunct2, rule_format, OF nav2]
    same nav1 nav2 val1 val2
  show ?thesis by simp
qed

subsection \<open>The empty command list\<close>

lemma createUrlTreeFromSegmentGroup_Nil:
  "createUrlTreeFromSegmentGroup anchor [] qps frag =
     Inr \<lparr>root = createRoot (squashSegmentGroup (root_of anchor)),
          queryParams = stringify_queryParams qps, fragment = frag\<rparr>"
  by (simp add: createUrlTreeFromSegmentGroup_def tree_def stringify_queryParams_def)

lemma createUrlTree_Nil:
  "createUrlTree anchor lastPathIndex [] qps frag =
     Inr \<lparr>root = createRoot (squashSegmentGroup (root_of anchor)),
          queryParams = stringify_queryParams qps, fragment = frag\<rparr>"
  by (simp add: createUrlTree_def tree_def stringify_queryParams_def)

text \<open>
  C1, as amended. With an empty command list both entry points return the squashed form
  of the anchor's root tree (as \<^verbatim>\<open>createRoot\<close> returns it), with the stringified query
  parameters and the fragment given; that root is the anchor's root tree itself whenever
  the anchor's root tree is already squashed.
\<close>

theorem C1_empty_commands_return_squashed_root:
  "createUrlTreeFromSegmentGroup anchor [] qps frag =
     Inr \<lparr>root = createRoot (squashSegmentGroup (root_of anchor)),
          queryParams = stringify_queryParams qps, fragment = frag\<rparr> \<and>
   createUrlTree anchor lastPathIndex [] qps frag =
     Inr \<lparr>root = createRoot (squashSegmentGroup (root_of anchor)),
          queryParams = stringify_queryParams qps, fragment = frag\<rparr> \<and>
   (squashed (root_of anchor) \<longrightarrow>
      createRoot (squashSegmentGroup (root_of anchor)) = root_of anchor)"
  by (simp add: createUrlTreeFromSegmentGroup_Nil createUrlTree_Nil createRoot_def
        squashSegmentGroup_id)

theorem C1_empty_commands_return_squashed_root_witness:
  "squashed (root_of
     ((UrlSegmentGroup [\<lparr>path = ''team'', parameters = []\<rparr>, \<lparr>path = ''33'', parameters = []\<rparr>]
        [(''primary'', UrlSegmentGroup [\<lparr>path = ''user'', parameters = []\<rparr>, \<lparr>path = ''11'', parameters = []\<rparr>] []),
         (''right'', UrlSegmentGroup [\<lparr>path = ''chat'', parameters = []\<rparr>] [])]),
      [Crumb [] [] ''primary'' []])) \<and>
   createUrlTreeFromSegmentGroup
     ((UrlSegmentGroup [\<lparr>path = ''team'', parameters = []\<rparr>, \<lparr>path = ''33'', parameters = []\<rparr>]
        [(''primary'', UrlSegmentGroup [\<lparr>path = ''user'', parameters = []\<rparr>, \<lparr>path = ''11'', parameters = []\<rparr>] []),
         (''right'', UrlSegmentGroup [\<lparr>path = ''chat'', parameters = []\<rparr>] [])]),
      [Crumb [] [] ''primary'' []])
     [] (Some [(''q'', QValue (PNum 5))]) (Some ''top'') =
   Inr \<lparr>root = root_of
          ((UrlSegmentGroup [\<lparr>path = ''team'', parameters = []\<rparr>, \<lparr>path = ''33'', parameters = []\<rparr>]
        [(''primary'', UrlSegmentGroup [\<lparr>path = ''user'', parameters = []\<rparr>, \<lparr>path = ''11'', parameters = []\<rparr>] []),
         (''right'', UrlSegmentGroup [\<lparr>path = ''chat'', parameters = []\<rparr>] [])]),
      [Crumb [] [] ''primary'' []]),
        queryParams = [(''q'', QString ''5'')], fragment = Some ''top''\<rparr>"
proof -
  have sq: "squashed (root_of
     ((UrlSegmentGroup [\<lparr>path = ''team'', parameters = []\<rparr>, \<lparr>path = ''33'', parameters = []\<rparr>]
        [(''primary'', UrlSegmentGroup [\<lparr>path = ''user'', parameters = []\<rparr>, \<lparr>path = ''11'', parameters = []\<rparr>] []),
         (''right'', UrlSegmentGroup [\<lparr>path = ''chat'', parameters = []\<rparr>] [])]),
      [Crumb [] [] ''primary'' []]))"
    by code_simp
  have qp: "stringify_queryParams (Some [(''q'', QValue (PNum 5))]) = [(''q'', QString ''5'')]"
    by code_simp
  from C1_empty_commands_return_squashed_root
    [of "((UrlSegmentGroup [\<lparr>path = ''team'', parameters = []\<rparr>, \<lparr>path = ''33'', parameters = []\<rparr>]
        [(''primary'', UrlSegmentGroup [\<lparr>path = ''user'', parameters = []\<rparr>, \<lparr>path = ''11'', parameters = []\<rparr>] []),
         (''right'', UrlSegmentGroup [\<lparr>path = ''chat'', parameters = []\<rparr>] [])]),
      [Crumb [] [] ''primary'' []])"
        "Some [(''q'', QValue (PNum 5))]" "Some ''top''" 0]
    sq qp
  show ?thesis by simp
qed

text \<open>
  C1 as stated fails for an anchor whose root tree holds a group with no segments and one
  child below the root: the tree returned has that group collapsed into its child, so its
  root is not the anchor's root tree.
\<close>

theorem C1_unsquashed_root_is_changed:
  "createUrlTreeFromSegmentGroup
     (UrlSegmentGroup [\<lparr>path = ''a'', parameters = []\<rparr>] [],
      [Crumb [] [] ''x'' [], Crumb [] [] ''primary'' []])
     [] None None =
   Inr \<lparr>root = (UrlSegmentGroup [] [(''primary'', UrlSegmentGroup [\<lparr>path = ''a'', parameters = []\<rparr>] [])]),
        queryParams = [], fragment = None\<rparr> \<and>
   root_of
     (UrlSegmentGroup [\<lparr>path = ''a'', parameters = []\<rparr>] [],
      [Crumb [] [] ''x'' [], Crumb [] [] ''primary'' []]) =
   (UrlSegmentGroup []
      [(''primary'', UrlSegmentGroup [] [(''x'', UrlSegmentGroup [\<lparr>path = ''a'', parameters = []\<rparr>] [])])]) \<and>
   (UrlSegmentGroup [] [(''primary'', UrlSegmentGroup [\<lparr>path = ''a'', parameters = []\<rparr>] [])]) \<noteq>
   (UrlSegmentGroup []
      [(''primary'', UrlSegmentGroup [] [(''x'', UrlSegmentGroup [\<lparr>path = ''a'', parameters = []\<rparr>] [])])])"
  by code_simp

subsection \<open>Matrix parameters as the first command\<close>

lemma createNewSegmentGroup_loop_done:
  "\<not> i < length cmds \<Longrightarrow>
   createNewSegmentGroup_loop segs startIndex cmds i paths = Inr (UrlSegmentGroup paths [])"
  by (simp add: createNewSegmentGroup_loop.simps [of segs startIndex cmds i paths])

lemma createNewSegmentGroup_loop_outlets:
  "i < length cmds \<Longrightarrow> cmds ! i = COutlets os \<Longrightarrow>
   createNewSegmentGroup_loop segs startIndex cmds i paths =
     (case createNewSegmentChildren os of
        Inl e \<Rightarrow> Inl e
      | Inr chs \<Rightarrow> Inr (UrlSegmentGroup paths chs))"
  by (simp add: createNewSegmentGroup_loop.simps [of segs startIndex cmds i paths])

lemma createNewSegmentGroup_loop_other:
  assumes "i < length cmds" and "\<not> isCommandWithOutlets (cmds ! i)"
  shows "createNewSegmentGroup_loop segs startIndex cmds i paths =
     (case (if i = 0 then matrix_params_of (Some (cmds ! 0)) else None) of
        Some params \<Rightarrow>
          (case js_nth segs startIndex of
             None \<Rightarrow> Inl TypeError
           | Some p \<Rightarrow>
               createNewSegmentGroup_loop segs startIndex cmds (i + 1)
                 (paths @ [\<lparr>path = path p, parameters = stringify params\<rparr>]))
      | None \<Rightarrow>
          (case (if to_string (cmds ! i) \<noteq> []
                 then matrix_params_of
                        (if i + 1 < length cmds then Some (cmds ! (i + 1)) else None)
                 else None) of
             Some params \<Rightarrow>
               createNewSegmentGroup_loop segs startIndex cmds (i + 2)
                 (paths @ [\<lparr>path = to_string (cmds ! i), parameters = stringify params\<rparr>])
           | None \<Rightarrow>
               createNewSegmentGroup_loop segs startIndex cmds (i + 1)
                 (paths @ [\<lparr>path = to_string (cmds ! i), parameters = []\<rparr>])))"
  using assms
  by (subst createNewSegmentGroup_loop.simps)
     (cases "cmds ! i"; auto simp: Let_def split: option.splits)

lemma createNewSegmentGroup_loop_prefix:
  assumes "length cmds - i = n" and "createNewSegmentGroup_loop segs startIndex cmds i paths = Inr r"
  shows "take (length paths) (segments r) = paths"
  using assms
proof (induction n arbitrary: i paths rule: less_induct)
  case (less n)
  show ?case
  proof (cases "i < length cmds")
    case False
    with less.prems(2) show ?thesis by (auto simp: createNewSegmentGroup_loop_done)
  next
    case True
    have step: "take (length paths) (segments r) = paths"
      if "createNewSegmentGroup_loop segs startIndex cmds (i + k) (paths @ [x]) = Inr r"
        and "0 < k" for k x
    proof -
      have "length cmds - (i + k) < n" using True that(2) less.prems(1) by simp
      from less.IH [OF this refl that(1)]
      have "take (length (paths @ [x])) (segments r) = paths @ [x]" .
      then have "take (length paths) (take (length (paths @ [x])) (segments r)) =
          take (length paths) (paths @ [x])" by simp
      then show ?thesis by simp
    qed
    show ?thesis
    proof (cases "isCommandWithOutlets (cmds ! i)")
      case t: True
      then obtain os where "cmds ! i = COutlets os" by (cases "cmds ! i") auto
      from less.prems(2) [unfolded createNewSegmentGroup_loop_outlets [OF True this]]
      show ?thesis by (auto split: sum.splits)
    next
      case False
      from less.prems(2) [unfolded createNewSegmentGroup_loop_other [OF True False]]
      consider x where "createNewSegmentGroup_loop segs startIndex cmds (i + 1) (paths @ [x]) = Inr r"
        | x where "createNewSegmentGroup_loop segs startIndex cmds (i + 2) (paths @ [x]) = Inr r"
        by (auto split: option.splits)
      then show ?thesis
        by cases (use step [of 1] step [of 2] in auto)
    qed
  qed
qed

lemma js_slice_take:
  "0 \<le> i \<Longrightarrow> i \<le> int (length xs) \<Longrightarrow> js_slice xs 0 i = take (nat i) xs"
  by (auto simp: js_slice_def slice_index_def Let_def min_def nat_le_iff)

lemma createNewSegmentGroup_leading_params:
  assumes "0 \<le> i" and "i < int (length (segments sg))"
  shows "createNewSegmentGroup sg i (CParams kvs # rest) =
     createNewSegmentGroup_loop (segments sg) i (CParams kvs # rest) 1
       (take (nat i) (segments sg) @
        [\<lparr>path = path (segments sg ! nat i), parameters = stringify kvs\<rparr>])"
  using assms
  by (simp add: createNewSegmentGroup_def createNewSegmentGroup_loop_other js_nth_def
        js_slice_take)

lemma createNewSegmentGroup_attaches:
  assumes "0 \<le> i" and "i < int (length (segments sg))"
    and "createNewSegmentGroup sg i (CParams kvs # rest) = Inr r"
  shows "take (nat i + 1) (segments r) =
     take (nat i) (segments sg) @
       [\<lparr>path = path (segments sg ! nat i), parameters = stringify kvs\<rparr>]"
proof -
  from assms(3) [unfolded createNewSegmentGroup_leading_params [OF assms(1,2)]]
    createNewSegmentGroup_loop_prefix [OF refl]
  have "take (length (take (nat i) (segments sg) @
        [\<lparr>path = path (segments sg ! nat i), parameters = stringify kvs\<rparr>])) (segments r) =
     take (nat i) (segments sg) @
       [\<lparr>path = path (segments sg ! nat i), parameters = stringify kvs\<rparr>]"
    by blast
  moreover from assms(1,2) have "length (take (nat i) (segments sg)) = nat i" by simp
  ultimately show ?thesis by simp
qed

lemma createNewSegmentGroup_only_params:
  assumes "0 \<le> i" and "i < int (length (segments sg))"
  shows "createNewSegmentGroup sg i [CParams kvs] =
     Inr (UrlSegmentGroup
            (take (nat i) (segments sg) @
             [\<lparr>path = path (segments sg ! nat i), parameters = stringify kvs\<rparr>]) [])"
  by (simp add: createNewSegmentGroup_leading_params [OF assms] createNewSegmentGroup_loop_done)

lemma prefixedWith_object_mismatch:
  assumes "0 \<le> i" and "i < int (length (segments sg))"
    and "path (segments sg ! nat i) \<noteq> ''[object Object]''"
  shows "prefixedWith sg i (CParams kvs # rest) = Inr noMatch"
  using assms
  by (simp add: prefixedWith_def prefixedWith_loop_step)

lemma updateSegmentGroup_leading_params:
  assumes "0 \<le> i" and "i < int (length (segments sg))"
    and "path (segments sg ! nat i) \<noteq> ''[object Object]''"
  shows "updateSegmentGroup (Some sg) i (CParams kvs # rest) =
     createNewSegmentGroup sg i (CParams kvs # rest)"
proof -
  from assms(1,2) have "segments sg \<noteq> []" by auto
  then show ?thesis
    by (simp add: updateSegmentGroup.simps [of "Some sg" i]
          prefixedWith_object_mismatch [OF assms] noMatch_def)
qed

lemma findStartingPositionForTargetGroup_relative:
  assumes "\<not> isAbsolute nav" and "parent target \<noteq> None"
    and "numberOfDoubleDots nav = 0" and "segments (fst target) \<noteq> []"
  shows "findStartingPositionForTargetGroup nav rt target =
     Inr \<lparr>segmentGroup = target, processChildren = False,
          index = int (length (segments (fst target))) - 1 +
                  (if first_isMatrixParams (commands nav) then 0 else 1)\<rparr>"
proof -
  obtain g cs where t: "target = (g, cs)" by (cases target)
  from assms(4) have "0 < length (segments g)" by (simp add: t)
  with assms(1,2,3) show ?thesis
    by (simp add: findStartingPositionForTargetGroup_def t
          createPositionApplyingDoubleDots.simps [of g cs])
qed

text \<open>
  Matrix parameters as the first command of a relative navigation. From an anchor that
  has a parent and segments, without double dots, the starting index is that of the
  anchor's last segment when the first command is a matrix-parameter object, and one more
  otherwise. \<^verbatim>\<open>createNewSegmentGroup\<close> at the index \<open>i\<close> of an existing segment, given a
  matrix-parameter object as the first command, keeps the segments before \<open>i\<close> and puts
  at \<open>i\<close> the segment with the path it had there and the stringified entries of the
  object as its parameters; with no further command the group has no other segment.
  \<^verbatim>\<open>updateSegmentGroup\<close> hands such commands to \<^verbatim>\<open>createNewSegmentGroup\<close> when the path
  of the segment at \<open>i\<close> is not the text \<^verbatim>\<open>[object Object]\<close>, the template string of the
  object that prefix matching compares it with. For the anchor \<^verbatim>\<open>team/33\<close> of
  \<^verbatim>\<open>/team/33\<close> the commands \<^verbatim>\<open>[{expand: 'true'}]\<close> give the tree of
  \<^verbatim>\<open>/team/33;expand=true\<close>.
\<close>

lemma leading_matrix_params_attach:
  "(\<forall>nav rt target.
      \<not> isAbsolute nav \<and> parent target \<noteq> None \<and> numberOfDoubleDots nav = 0 \<and>
      segments (fst target) \<noteq> [] \<longrightarrow>
        findStartingPositionForTargetGroup nav rt target =
          Inr \<lparr>segmentGroup = target, processChildren = False,
               index = int (length (segments (fst target))) - 1 +
                       (if first_isMatrixParams (commands nav) then 0 else 1)\<rparr>) \<and>
   (\<forall>sg i kvs rest r.
      0 \<le> i \<and> i < int (length (segments sg)) \<and>
      createNewSegmentGroup sg i (CParams kvs # rest) = Inr r \<longrightarrow>
        take (nat i + 1) (segments r) =
          take (nat i) (segments sg) @
            [\<lparr>path = path (segments sg ! nat i), parameters = stringify kvs\<rparr>]) \<and>
   (\<forall>sg i kvs.
      0 \<le> i \<and> i < int (length (segments sg)) \<longrightarrow>
        createNewSegmentGroup sg i [CParams kvs] =
          Inr (UrlSegmentGroup
                 (take (nat i) (segments sg) @
                  [\<lparr>path = path (segments sg ! nat i), parameters = stringify kvs\<rparr>]) [])) \<and>
   (\<forall>sg i kvs rest.
      0 \<le> i \<and> i < int (length (segments sg)) \<and>
      path (segments sg ! nat i) \<noteq> ''[object Object]'' \<longrightarrow>
        updateSegmentGroup (Some sg) i (CParams kvs # rest) =
          createNewSegmentGroup sg i (CParams kvs # rest)) \<and>
   createUrlTreeFromSegmentGroup
     (UrlSegmentGroup [\<lparr>path = ''team'', parameters = []\<rparr>, \<lparr>path = ''33'', parameters = []\<rparr>] [], [Crumb [] [] ''primary'' []])
     [CParams [(''expand'', PStr ''true'')]] None None =
   Inr \<lparr>root = UrlSegmentGroup []
          [(''primary'',
            UrlSegmentGroup [\<lparr>path = ''team'', parameters = []\<rparr>, \<lparr>path = ''33'', parameters = [(''expand'', ''true'')]\<rparr>]
              [])],
        queryParams = [], fragment = None\<rparr>"
proof (intro conjI allI impI)
  fix nav :: navigation and rt target
  assume "\<not> isAbsolute nav \<and> parent target \<noteq> None \<and> numberOfDoubleDots nav = 0 \<and>
      segments (fst target) \<noteq> []"
  then show "findStartingPositionForTargetGroup nav rt target =
          Inr \<lparr>segmentGroup = target, processChildren = False,
               index = int (length (segments (fst target))) - 1 +
                       (if first_isMatrixParams (commands nav) then 0 else 1)\<rparr>"
    using findStartingPositionForTargetGroup_relative [of nav target rt] by simp
next
  fix sg i kvs rest r
  assume "0 \<le> i \<and> i < int (length (segments sg)) \<and>
      createNewSegmentGroup sg i (CParams kvs # rest) = Inr r"
  then show "take (nat i + 1) (segments r) =
          take (nat i) (segments sg) @
            [\<lparr>path = path (segments sg ! nat i), parameters = stringify kvs\<rparr>]"
    using createNewSegmentGroup_attaches [of i sg kvs rest r] by simp
next
  fix sg i kvs
  assume "0 \<le> i \<and> i < int (length (segments sg))"
  then show "createNewSegmentGroup sg i [CParams kvs] =
          Inr (UrlSegmentGroup
                 (take (nat i) (segments sg) @
                  [\<lparr>path = path (segments sg ! nat i), parameters = stringify kvs\<rparr>]) [])"
    using createNewSegmentGroup_only_params [of i sg kvs] by simp
next
  fix sg i kvs rest
  assume "0 \<le> i \<and> i < int (length (segments sg)) \<and>
      path (segments sg ! nat i) \<noteq> ''[object Object]''"
  then show "updateSegmentGroup (Some sg) i (CParams kvs # rest) =
          createNewSegmentGroup sg i (CParams kvs # rest)"
    using updateSegmentGroup_leading_params [of i sg kvs rest] by simp
next
  show "createUrlTreeFromSegmentGroup
     (UrlSegmentGroup [\<lparr>path = ''team'', parameters = []\<rparr>, \<lparr>path = ''33'', parameters = []\<rparr>] [], [Crumb [] [] ''primary'' []])
     [CParams [(''expand'', PStr ''true'')]] None None =
   Inr \<lparr>root = UrlSegmentGroup []
          [(''primary'',
            UrlSegmentGroup [\<lparr>path = ''team'', parameters = []\<rparr>, \<lparr>path = ''33'', parameters = [(''expand'', ''true'')]\<rparr>]
              [])],
        queryParams = [], fragment = None\<rparr>"
    by code_simp
qed

lemma leading_matrix_params_attach_example:
  "findStartingPositionForTargetGroup
     \<lparr>isAbsolute = False, numberOfDoubleDots = 0,
      commands = [CParams [(''expand'', PStr ''true'')]]\<rparr>
     (UrlSegmentGroup [] [(''primary'', UrlSegmentGroup [\<lparr>path = ''team'', parameters = []\<rparr>, \<lparr>path = ''33'', parameters = []\<rparr>] [])])
     (UrlSegmentGroup [\<lparr>path = ''team'', parameters = []\<rparr>, \<lparr>path = ''33'', parameters = []\<rparr>] [], [Crumb [] [] ''primary'' []]) =
   Inr \<lparr>segmentGroup = (UrlSegmentGroup [\<lparr>path = ''team'', parameters = []\<rparr>, \<lparr>path = ''33'', parameters = []\<rparr>] [], [Crumb [] [] ''primary'' []]),
        processChildren = False, index = 1\<rparr> \<and>
   createNewSegmentGroup (UrlSegmentGroup [\<lparr>path = ''team'', parameters = []\<rparr>, \<lparr>path = ''33'', parameters = []\<rparr>] []) 1
     [CParams [(''expand'', PStr ''true'')]] =
   Inr (UrlSegmentGroup
          [\<lparr>path = ''team'', parameters = []\<rparr>, \<lparr>path = ''33'', parameters = [(''expand'', ''true'')]\<rparr>] []) \<and>
   updateSegmentGroup (Some (UrlSegmentGroup [\<lparr>path = ''team'', parameters = []\<rparr>, \<lparr>path = ''33'', parameters = []\<rparr>] [])) 1
     [CParams [(''expand'', PStr ''true'')], CPrim (PStr ''x'')] =
   createNewSegmentGroup (UrlSegmentGroup [\<lparr>path = ''team'', parameters = []\<rparr>, \<lparr>path = ''33'', parameters = []\<rparr>] []) 1
     [CParams [(''expand'', PStr ''true'')], CPrim (PStr ''x'')] \<and>
   createNewSegmentGroup (UrlSegmentGroup [\<lparr>path = ''team'', parameters = []\<rparr>, \<lparr>path = ''33'', parameters = []\<rparr>] []) 1
     [CParams [(''expand'', PStr ''true'')], CPrim (PStr ''x'')] =
   Inr (UrlSegmentGroup
          [\<lparr>path = ''team'', parameters = []\<rparr>, \<lparr>path = ''33'', parameters = [(''expand'', ''true'')]\<rparr>, \<lparr>path = ''x'', parameters = []\<rparr>] []) \<and>
   take (nat 1 + 1)
     (segments (UrlSegmentGroup
          [\<lparr>path = ''team'', parameters = []\<rparr>, \<lparr>path = ''33'', parameters = [(''expand'', ''true'')]\<rparr>, \<lparr>path = ''x'', parameters = []\<rparr>] [])) =
   take (nat 1) (segments (UrlSegmentGroup [\<lparr>path = ''team'', parameters = []\<rparr>, \<lparr>path = ''33'', parameters = []\<rparr>] [])) @
     [\<lparr>path = path (segments (UrlSegmentGroup [\<lparr>path = ''team'', parameters = []\<rparr>, \<lparr>path = ''33'', parameters = []\<rparr>] []) ! nat 1),
       parameters = stringify [(''expand'', PStr ''true'')]\<rparr>]"
proof -
  note t = leading_matrix_params_attach
  have h1: "\<not> isAbsolute \<lparr>isAbsolute = False, numberOfDoubleDots = 0,
        commands = [CParams [(''expand'', PStr ''true'')]]\<rparr> \<and>
      parent (UrlSegmentGroup [\<lparr>path = ''team'', parameters = []\<rparr>, \<lparr>path = ''33'', parameters = []\<rparr>] [], [Crumb [] [] ''primary'' []]) \<noteq> None \<and>
      numberOfDoubleDots \<lparr>isAbsolute = False, numberOfDoubleDots = 0,
        commands = [CParams [(''expand'', PStr ''true'')]]\<rparr> = 0 \<and>
      segments (fst (UrlSegmentGroup [\<lparr>path = ''team'', parameters = []\<rparr>, \<lparr>path = ''33'', parameters = []\<rparr>] [], [Crumb [] [] ''primary'' []])) \<noteq> []"
    by simp
  have r: "createNewSegmentGroup (UrlSegmentGroup [\<lparr>path = ''team'', parameters = []\<rparr>, \<lparr>path = ''33'', parameters = []\<rparr>] []) 1
     [CParams [(''expand'', PStr ''true'')], CPrim (PStr ''x'')] =
   Inr (UrlSegmentGroup
          [\<lparr>path = ''team'', parameters = []\<rparr>, \<lparr>path = ''33'', parameters = [(''expand'', ''true'')]\<rparr>, \<lparr>path = ''x'', parameters = []\<rparr>] [])"
    by code_simp
  have h2: "(0::int) \<le> 1 \<and> (1::int) < int (length (segments (UrlSegmentGroup [\<lparr>path = ''team'', parameters = []\<rparr>, \<lparr>path = ''33'', parameters = []\<rparr>] []))) \<and>
      createNewSegmentGroup (UrlSegmentGroup [\<lparr>path = ''team'', parameters = []\<rparr>, \<lparr>path = ''33'', parameters = []\<rparr>] []) 1
        [CParams [(''expand'', PStr ''true'')], CPrim (PStr ''x'')] =
      Inr (UrlSegmentGroup
          [\<lparr>path = ''team'', parameters = []\<rparr>, \<lparr>path = ''33'', parameters = [(''expand'', ''true'')]\<rparr>, \<lparr>path = ''x'', parameters = []\<rparr>] [])"
    using r by simp
  have h3: "(0::int) \<le> 1 \<and> (1::int) < int (length (segments (UrlSegmentGroup [\<lparr>path = ''team'', parameters = []\<rparr>, \<lparr>path = ''33'', parameters = []\<rparr>] [])))"
    by simp
  have h4: "(0::int) \<le> 1 \<and> (1::int) < int (length (segments (UrlSegmentGroup [\<lparr>path = ''team'', parameters = []\<rparr>, \<lparr>path = ''33'', parameters = []\<rparr>] []))) \<and>
      path (segments (UrlSegmentGroup [\<lparr>path = ''team'', parameters = []\<rparr>, \<lparr>path = ''33'', parameters = []\<rparr>] []) ! nat 1) \<noteq> ''[object Object]''"
    by simp
  from t [THEN conjunct1, rule_format, OF h1,
          of "UrlSegmentGroup [] [(''primary'', UrlSegmentGroup [\<lparr>path = ''team'', parameters = []\<rparr>, \<lparr>path = ''33'', parameters = []\<rparr>] [])]"]
    t [THEN conjunct2, THEN conjunct1, rule_format, OF h2]
    t [THEN conjunct2, THEN conjunct2, THEN conjunct1, rule_format, OF h3,
       of "[(''expand'', PStr ''true'')]"]
    t [THEN conjunct2, THEN conjunct2, THEN conjunct2, THEN conjunct1, rule_format, OF h4,
       of "[(''expand'', PStr ''true'')]" "[CPrim (PStr ''x'')]"]
    r
  show ?thesis by (simp add: stringify_def)
qed

text \<open>
  C7. The claim fails for a boundary segment whose path is the text \<^verbatim>\<open>[object Object]\<close>
  and which has no parameters. From the anchor \<^verbatim>\<open>team/[object Object]\<close> the commands
  \<^verbatim>\<open>[{expand: 'true'}]\<close> resolve to the index of the last segment, as for every other
  anchor. \<^verbatim>\<open>prefixedWith\<close> then compares the template string of the object with the path
  of that segment and reports a match that uses up the command, so that
  \<^verbatim>\<open>updateSegmentGroup\<close> returns the segments as they are and never reaches
  \<^verbatim>\<open>createNewSegmentGroup\<close>, whose first-command branch (commented: to start with an
  object literal is to reuse the path part from the segment) would attach the
  parameters. The tree returned is that of \<^verbatim>\<open>/team/[object Object]\<close>, without
  \<^verbatim>\<open>expand=true\<close>.
\<close>

theorem C7_object_text_segment_gets_no_parameters:
  "computeNavigation [CParams [(''expand'', PStr ''true'')]] =
     Inr \<lparr>isAbsolute = False, numberOfDoubleDots = 0,
          commands = [CParams [(''expand'', PStr ''true'')]]\<rparr> \<and>
   findStartingPositionForTargetGroup
     \<lparr>isAbsolute = False, numberOfDoubleDots = 0,
      commands = [CParams [(''expand'', PStr ''true'')]]\<rparr>
     (UrlSegmentGroup [] [(''primary'', UrlSegmentGroup [\<lparr>path = ''team'', parameters = []\<rparr>, \<lparr>path = ''[object Object]'', parameters = []\<rparr>] [])])
     (UrlSegmentGroup [\<lparr>path = ''team'', parameters = []\<rparr>, \<lparr>path = ''[object Object]'', parameters = []\<rparr>] [], [Crumb [] [] ''primary'' []]) =
     Inr \<lparr>segmentGroup = (UrlSegmentGroup [\<lparr>path = ''team'', parameters = []\<rparr>, \<lparr>path = ''[object Object]'', parameters = []\<rparr>] [], [Crumb [] [] ''primary'' []]),
          processChildren = False, index = 1\<rparr> \<and>
   prefixedWith (UrlSegmentGroup [\<lparr>path = ''team'', parameters = []\<rparr>, \<lparr>path = ''[object Object]'', parameters = []\<rparr>] []) 1
     [CParams [(''expand'', PStr ''true'')]] =
     Inr \<lparr>match = True, pathIndex = 2, commandIndex = 1\<rparr> \<and>
   updateSegmentGroup (Some (UrlSegmentGroup [\<lparr>path = ''team'', parameters = []\<rparr>, \<lparr>path = ''[object Object]'', parameters = []\<rparr>] [])) 1
     [CParams [(''expand'', PStr ''true'')]] =
     Inr (UrlSegmentGroup [\<lparr>path = ''team'', parameters = []\<rparr>, \<lparr>path = ''[object Object]'', parameters = []\<rparr>] []) \<and>
   createNewSegmentGroup (UrlSegmentGroup [\<lparr>path = ''team'', parameters = []\<rparr>, \<lparr>path = ''[object Object]'', parameters = []\<rparr>] []) 1
     [CParams [(''expand'', PStr ''true'')]] =
     Inr (UrlSegmentGroup [\<lparr>path = ''team'', parameters = []\<rparr>, \<lparr>path = ''[object Object]'', parameters = [(''expand'', ''true'')]\<rparr>] []) \<and>
   createUrlTreeFromSegmentGroup
     (UrlSegmentGroup [\<lparr>path = ''team'', parameters = []\<rparr>, \<lparr>path = ''[object Object]'', parameters = []\<rparr>] [], [Crumb [] [] ''primary'' []])
     [CParams [(''expand'', PStr ''true'')]] None None =
     Inr \<lparr>root = UrlSegmentGroup [] [(''primary'', UrlSegmentGroup [\<lparr>path = ''team'', parameters = []\<rparr>, \<lparr>path = ''[object Object]'', parameters = []\<rparr>] [])],
          queryParams = [], fragment = None\<rparr>"
  by code_simp

end
